theory Spec2Isabelle
  imports Complex_Main
begin

section \<open>Values, text and the normalizer\<close>

text \<open>
  The engine of \<^verbatim>\<open>src/test.py\<close> reads the cells of a pandas DataFrame. A cell is a
  Python object: \<^verbatim>\<open>None\<close>, a \<^verbatim>\<open>str\<close>, or an \<^verbatim>\<open>int\<close> (the row labels the engine
  itself stores in its working column \<^verbatim>\<open>ExcelRow\<close>). Text is modelled as \<^typ>\<open>string\<close>
  over ASCII: the character classes below are Python's \<^verbatim>\<open>str.lower\<close>,
  \<^verbatim>\<open>str.isspace\<close> and the regular expression classes \<^verbatim>\<open>\s\<close> and
  \<^verbatim>\<open>[^a-z0-9\s]\<close> restricted to code points below 128.
\<close>

datatype cell = PNone | PStr string | PInt int

definition digit_char :: "nat \<Rightarrow> char" where
  "digit_char d = (''0123456789'' ! (d mod 10))"

fun digits :: "nat \<Rightarrow> string" where
  "digits n = (if n < 10 then [digit_char n] else digits (n div 10) @ [digit_char (n mod 10)])"

declare digits.simps [simp del]

definition str_int :: "int \<Rightarrow> string" where
  "str_int i = (if i < 0 then CHR ''-'' # digits (nat (- i)) else digits (nat i))"

text \<open>\<^verbatim>\<open>str(text)\<close>: the text of a cell; \<^verbatim>\<open>str(None)\<close> is the four letters \<^verbatim>\<open>None\<close>.\<close>

fun py_str :: "cell \<Rightarrow> string" where
  "py_str PNone = ''None''"
| "py_str (PStr s) = s"
| "py_str (PInt i) = str_int i"

definition lower_char :: "char \<Rightarrow> char" where
  "lower_char c =
     (case map_of (zip ''ABCDEFGHIJKLMNOPQRSTUVWXYZ'' ''abcdefghijklmnopqrstuvwxyz'') c of
        Some l \<Rightarrow> l
      | None \<Rightarrow> c)"

definition lower :: "string \<Rightarrow> string" where
  "lower s = map lower_char s"

text \<open>Python's ASCII whitespace: tab, line feed, vertical tab, form feed, carriage
  return, the four separators 0x1C to 0x1F, and the space.\<close>

definition is_space :: "char \<Rightarrow> bool" where
  "is_space c =
     (c \<in> set [CHR 0x09, CHR 0x0A, CHR 0x0B, CHR 0x0C, CHR 0x0D,
                CHR 0x1C, CHR 0x1D, CHR 0x1E, CHR 0x1F, CHR '' ''])"

definition is_lower_alnum :: "char \<Rightarrow> bool" where
  "is_lower_alnum c = (c \<in> set ''abcdefghijklmnopqrstuvwxyz0123456789'')"

definition strip :: "string \<Rightarrow> string" where
  "strip s = rev (dropWhile is_space (rev (dropWhile is_space s)))"

text \<open>\<^verbatim>\<open>re.sub(r"[^a-z0-9\s]", " ", text)\<close>\<close>

definition sub_non_alnum :: "string \<Rightarrow> string" where
  "sub_non_alnum s = map (\<lambda>c. if is_lower_alnum c \<or> is_space c then c else CHR '' '') s"

text \<open>\<^verbatim>\<open>re.sub(r"\s+", " ", text)\<close>: every maximal run of whitespace becomes one space.\<close>

function sub_spaces :: "string \<Rightarrow> string" where
  "sub_spaces [] = []"
| "sub_spaces (c # cs) =
     (if is_space c then CHR '' '' # sub_spaces (dropWhile is_space cs)
      else c # sub_spaces cs)"
  by pat_completeness auto
termination
  by (relation "measure length") (auto simp: length_dropWhile_le less_Suc_eq_le)

text \<open>
  \<^verbatim>\<open>
  def normalize(text: Any) -> str:
      text = str(text).lower().strip()
      text = re.sub(r"[^a-z0-9\s]", " ", text) # Keep spaces
      text = re.sub(r"\s+", " ", text) # Normalize multiple spaces to single
      return text.strip()
  \<close>
\<close>

definition normalize_text :: "cell \<Rightarrow> string" where
  "normalize_text text = strip (sub_spaces (sub_non_alnum (strip (lower (py_str text)))))"

section \<open>The request and response models\<close>

text \<open>
  \<^verbatim>\<open>DeduplicationColumnMap\<close>: each logical field names a column of the uploaded table or
  is \<^verbatim>\<open>None\<close>. Python tests a field in two ways, and the model keeps both:
  \<^verbatim>\<open>col_map.customer_name is not None\<close>, and the truth value of the field
  (\<^verbatim>\<open>if col_map.customer_name\<close>), which also rejects the empty string.
\<close>

record DeduplicationColumnMap =
  customer_name :: "string option"
  address :: "string option"
  city :: "string option"
  country :: "string option"
  tpi :: "string option"

definition truthy :: "string option \<Rightarrow> bool" where
  "truthy v = (case v of None \<Rightarrow> False | Some s \<Rightarrow> s \<noteq> [])"

text \<open>\<^verbatim>\<open>getattr(col_map, logical_field, None)\<close>\<close>

definition getattr :: "DeduplicationColumnMap \<Rightarrow> string \<Rightarrow> string option" where
  "getattr col_map field =
     (if field = ''customer_name'' then customer_name col_map
      else if field = ''address'' then address col_map
      else if field = ''city'' then city col_map
      else if field = ''country'' then country col_map
      else if field = ''tpi'' then tpi col_map
      else None)"

record DuplicateRecordDetail =
  Row :: int
  Name :: "string option"
  Address :: "string option"
  Name_score :: "int option"
  Addr_score :: "int option"
  Overall_score :: int
  IsLowConfidence :: bool
  LLM_conf :: "rat option"
  uid :: string

record MasterRecord =
  MasterRow :: int
  MasterName :: "string option"
  MasterAddress :: "string option"
  DuplicateCount :: nat
  AvgSimilarity :: int
  IsLowConfidenceGroup :: bool
  Duplicates :: "DuplicateRecordDetail list"
  master_uid :: string

text \<open>The entries of \<^verbatim>\<open>master_records_dict\<close>, before the aggregates are computed.\<close>

record master_data =
  m_MasterRow :: int
  m_MasterName :: "string option"
  m_MasterAddress :: "string option"
  m_Duplicates :: "DuplicateRecordDetail list"
  m_master_uid :: string

record block_stats =
  total_blocks :: nat
  max_block_size :: nat
  avg_block_size :: rat
  records_in_blocks :: nat

text \<open>The two \<^verbatim>\<open>ValueError\<close>s the engine raises, told apart by their message.\<close>

datatype error =
    MappedColumnNotFound string "string list"
  | NoValidColumns

section \<open>Tables\<close>

text \<open>
  A DataFrame is its column labels and its rows, in order; a row maps each column label
  to its cell. The index of the table is the default one, as every reader of the
  repository produces it: row \<open>i\<close> has the label \<open>i\<close>, counted from zero. Column labels
  are distinct, and no two logical fields are mapped to the same column.
\<close>

record dataframe =
  columns :: "string list"
  rows :: "(string \<rightharpoonup> cell) list"

text \<open>\<^verbatim>\<open>row[label]\<close> for a label of the frame.\<close>

definition cell_at :: "(string \<rightharpoonup> cell) \<Rightarrow> string \<Rightarrow> cell" where
  "cell_at row label = (case row label of Some v \<Rightarrow> v | None \<Rightarrow> PNone)"

text \<open>\<^verbatim>\<open>frame[label] = f(index, row)\<close>: a column assignment, computed row by row. An
  existing column is overwritten in place, a new one is added last.\<close>

definition set_column ::
  "string \<Rightarrow> (nat \<Rightarrow> (string \<rightharpoonup> cell) \<Rightarrow> cell) \<Rightarrow> dataframe \<Rightarrow> dataframe" where
  "set_column label f frame =
     \<lparr>columns = (if label \<in> set (columns frame) then columns frame else columns frame @ [label]),
      rows = map (\<lambda>(i, row). row(label \<mapsto> f i row)) (enumerate 0 (rows frame))\<rparr>"

text \<open>\<^verbatim>\<open>df[cols_to_select].copy()\<close>\<close>

definition select_columns :: "string list \<Rightarrow> dataframe \<Rightarrow> dataframe" where
  "select_columns cols df = \<lparr>columns = cols, rows = map (\<lambda>row. row |` set cols) (rows df)\<rparr>"

section \<open>The engine\<close>

text \<open>
  The fuzzy matcher \<^verbatim>\<open>thefuzz.fuzz.token_set_ratio\<close> is a library outside the repository:
  the engine takes it as a parameter. So is the source of \<^verbatim>\<open>uuid.uuid4()\<close>: the
  parameter \<open>uuid4\<close> gives the identifier that the \<open>k\<close>-th call of one invocation draws.
\<close>

type_synonym scorer = "string \<Rightarrow> string \<Rightarrow> int"

definition neo_token_set_ratio :: "scorer \<Rightarrow> cell \<Rightarrow> cell \<Rightarrow> int" where
  "neo_token_set_ratio token_set_ratio a b =
     (if a = PNone \<or> b = PNone then 0 else token_set_ratio (py_str a) (py_str b))"

text \<open>\<^verbatim>\<open>[val for val in col_map.model_dump().values() if val is not None]\<close>\<close>

definition mapped_cols_from_user_file :: "DeduplicationColumnMap \<Rightarrow> string list" where
  "mapped_cols_from_user_file col_map =
     List.map_filter id
       [customer_name col_map, address col_map, city col_map, country col_map, tpi col_map]"

definition logical_fields_for_norm :: "string list" where
  "logical_fields_for_norm = [''customer_name'', ''address'', ''city'', ''country'']"

text \<open>One round of the normalization loop (lines 109 to 115).\<close>

definition normalize_field :: "DeduplicationColumnMap \<Rightarrow> string \<Rightarrow> dataframe \<Rightarrow> dataframe" where
  "normalize_field col_map logical_field work =
     (let user_column_name = getattr col_map logical_field
      in if truthy user_column_name \<and> the user_column_name \<in> set (columns work)
         then set_column (logical_field @ ''_norm'')
                (\<lambda>i row. PStr (normalize_text (cell_at row (the user_column_name)))) work
         else set_column (logical_field @ ''_norm'') (\<lambda>i row. PStr []) work)"

text \<open>The working copy (lines 103 to 115).\<close>

definition make_work :: "dataframe \<Rightarrow> string list \<Rightarrow> DeduplicationColumnMap \<Rightarrow> dataframe" where
  "make_work df cols_to_select col_map =
     fold (normalize_field col_map) logical_fields_for_norm
       (set_column ''ExcelRow'' (\<lambda>i row. PInt (int i)) (select_columns cols_to_select df))"

subsection \<open>Blocking\<close>

text \<open>\<^verbatim>\<open>pd.notna(v)\<close> on a cell, and the text of a cell that holds a string. The
  engine slices only the cells of its normalized columns, which always hold a string
  (lemma \<open>make_work_row_shape\<close>).\<close>

definition notna :: "cell \<Rightarrow> bool" where
  "notna v = (v \<noteq> PNone)"

definition text_of :: "cell \<Rightarrow> string" where
  "text_of v = (case v of PStr s \<Rightarrow> s | _ \<Rightarrow> [])"

text \<open>The key of one row (lines 122 to 132).\<close>

definition block_key :: "DeduplicationColumnMap \<Rightarrow> dataframe \<Rightarrow> (string \<rightharpoonup> cell) \<Rightarrow> string" where
  "block_key col_map work row =
     (let customer_name_norm_col_exists =
            (''customer_name_norm'' \<in> set (columns work) \<and> customer_name col_map \<noteq> None);
          city_norm_col_exists =
            (''city_norm'' \<in> set (columns work) \<and> city col_map \<noteq> None);
          name_prefix =
            (if customer_name_norm_col_exists \<and> notna (cell_at row ''customer_name_norm'')
             then take 4 (text_of (cell_at row ''customer_name_norm'')) else ''xxxx'');
          city_prefix =
            (if city_norm_col_exists \<and> notna (cell_at row ''city_norm'')
                \<and> text_of (cell_at row ''city_norm'') \<noteq> []
             then [hd (text_of (cell_at row ''city_norm''))] else ''y'');
          name_prefix = (if name_prefix = [] then ''xxxx'' else name_prefix)
      in name_prefix @ ''_'' @ city_prefix)"

text \<open>\<^verbatim>\<open>blocks.setdefault(key, []).append(i)\<close> on a dictionary in insertion order.\<close>

fun setdefault_append :: "string \<Rightarrow> nat \<Rightarrow> (string \<times> nat list) list \<Rightarrow> (string \<times> nat list) list" where
  "setdefault_append key i [] = [(key, [i])]"
| "setdefault_append key i ((k, block) # blocks) =
     (if k = key then (k, block @ [i]) # blocks else (k, block) # setdefault_append key i blocks)"

definition build_blocks :: "DeduplicationColumnMap \<Rightarrow> dataframe \<Rightarrow> (string \<times> nat list) list" where
  "build_blocks col_map work =
     foldl (\<lambda>blocks (i, row). setdefault_append (block_key col_map work row) i blocks) []
       (enumerate 0 (rows work))"

text \<open>Lines 135 to 140. The mean block size is the exact quotient; Python's is the
  nearest double.\<close>

definition make_block_stats :: "(string \<times> nat list) list \<Rightarrow> block_stats" where
  "make_block_stats blocks =
     \<lparr>total_blocks = length blocks,
      max_block_size = (if blocks \<noteq> [] then Max (set (map (length \<circ> snd) blocks)) else 0),
      avg_block_size =
        (if blocks \<noteq> [] then of_nat (sum_list (map (length \<circ> snd) blocks)) / of_nat (length blocks)
         else 0),
      records_in_blocks = sum_list (map (length \<circ> snd) blocks)\<rparr>"

subsection \<open>Scoring a pair\<close>

text \<open>\<^verbatim>\<open>itertools.combinations(block_indices, 2)\<close>\<close>

fun combinations2 :: "'a list \<Rightarrow> ('a \<times> 'a) list" where
  "combinations2 [] = []"
| "combinations2 (x # xs) = map (Pair x) xs @ combinations2 xs"

text \<open>Python's \<^verbatim>\<open>round\<close> on the quotient of two integers: the nearest integer, a tie
  going to the even one. The quotient is taken exactly; Python's is the nearest double,
  which rounds the same way for every list shorter than \<open>2\<^sup>4\<^sup>0\<close> of scores up to 100.\<close>

definition py_round :: "rat \<Rightarrow> int" where
  "py_round x =
     (let f = \<lfloor>x\<rfloor>; d = x - of_int f
      in if d < 1 / 2 then f else if 1 / 2 < d then f + 1 else if even f then f else f + 1)"

text \<open>\<^verbatim>\<open>label in row\<close> for a row of the working copy: the label is one of its columns.\<close>

definition in_row :: "string option \<Rightarrow> dataframe \<Rightarrow> bool" where
  "in_row label work = (truthy label \<and> the label \<in> set (columns work))"

text \<open>Lines 152 to 154 and 160 to 162.\<close>

definition field_score ::
  "scorer \<Rightarrow> string option \<Rightarrow> dataframe \<Rightarrow> (string \<rightharpoonup> cell) \<Rightarrow> (string \<rightharpoonup> cell) \<Rightarrow> int" where
  "field_score token_set_ratio label work r1 r2 =
     (if in_row label work
      then neo_token_set_ratio token_set_ratio (cell_at r1 (the label)) (cell_at r2 (the label))
      else 0)"

text \<open>Lines 166 to 170.\<close>

definition overall_score :: "DeduplicationColumnMap \<Rightarrow> int \<Rightarrow> int \<Rightarrow> int" where
  "overall_score col_map name_s addr_s =
     (let scores_present =
            (if truthy (customer_name col_map) then [name_s] else [])
            @ (if truthy (address col_map) then [addr_s] else [])
      in if scores_present \<noteq> []
         then py_round (of_int (sum_list scores_present) / of_nat (length scores_present))
         else 0)"

text \<open>\<^verbatim>\<open>int(r["ExcelRow"])\<close>: the column holds the label of the row, an integer (lemma
  \<open>excel_row_make_work\<close>). \<^verbatim>\<open>str(r[label]) if label and label in r else None\<close>: the
  text shown for a name or an address.\<close>

definition excel_row :: "(string \<rightharpoonup> cell) \<Rightarrow> int" where
  "excel_row r = (case cell_at r ''ExcelRow'' of PInt i \<Rightarrow> i | _ \<Rightarrow> 0)"

definition display :: "string option \<Rightarrow> dataframe \<Rightarrow> (string \<rightharpoonup> cell) \<Rightarrow> string option" where
  "display label work r = (if in_row label work then Some (py_str (cell_at r (the label))) else None)"

text \<open>
  The body of the inner loop up to the construction of \<^verbatim>\<open>dup_detail\<close> (lines 149 to
  186): \<open>None\<close> where the loop says \<^verbatim>\<open>continue\<close>. The identifier is drawn only for an
  accepted pair; it is passed in.
\<close>

definition score_pair ::
  "scorer \<Rightarrow> DeduplicationColumnMap \<Rightarrow> dataframe \<Rightarrow> (string \<rightharpoonup> cell) \<Rightarrow> (string \<rightharpoonup> cell)
     \<Rightarrow> string \<Rightarrow> DuplicateRecordDetail option" where
  "score_pair token_set_ratio col_map work r1 r2 fresh_uid =
     (let name_s = field_score token_set_ratio (customer_name col_map) work r1 r2
      in if truthy (customer_name col_map) \<and> name_s < 70 then None
         else
           let addr_s = field_score token_set_ratio (address col_map) work r1 r2;
               overall = overall_score col_map name_s addr_s
           in if overall < 70 then None
              else Some
                \<lparr>Row = excel_row r2 + 2,
                 Name = display (customer_name col_map) work r2,
                 Address = display (address col_map) work r2,
                 Name_score = (if truthy (customer_name col_map) then Some name_s else None),
                 Addr_score = (if truthy (address col_map) then Some addr_s else None),
                 Overall_score = overall,
                 IsLowConfidence = (overall < 90),
                 LLM_conf = None,
                 uid = fresh_uid\<rparr>)"

subsection \<open>Grouping\<close>

record engine_state =
  master_records_dict :: "(int \<times> master_data) list"
  uuid_calls :: nat

text \<open>\<^verbatim>\<open>master_records_dict[key]["Duplicates"].append(dup_detail)\<close>\<close>

definition append_duplicate ::
  "int \<Rightarrow> DuplicateRecordDetail \<Rightarrow> (int \<times> master_data) list \<Rightarrow> (int \<times> master_data) list" where
  "append_duplicate key dup_detail dict =
     map (\<lambda>(k, m). if k = key then (k, m\<lparr>m_Duplicates := m_Duplicates m @ [dup_detail]\<rparr>) else (k, m))
       dict"

text \<open>The body of the inner loop (lines 149 to 198) for the pair \<open>(i1_idx, i2_idx)\<close>.\<close>

definition process_pair ::
  "scorer \<Rightarrow> (nat \<Rightarrow> string) \<Rightarrow> DeduplicationColumnMap \<Rightarrow> dataframe \<Rightarrow> nat \<times> nat
     \<Rightarrow> engine_state \<Rightarrow> engine_state" where
  "process_pair token_set_ratio uuid4 col_map work pair st =
     (let r1 = rows work ! fst pair;
          r2 = rows work ! snd pair
      in case score_pair token_set_ratio col_map work r1 r2 (uuid4 (uuid_calls st)) of
           None \<Rightarrow> st
         | Some dup_detail \<Rightarrow>
             let st1 = st\<lparr>uuid_calls := uuid_calls st + 1\<rparr>;
                 master_row_excel_num = excel_row r1 + 2;
                 st2 =
                   (if master_row_excel_num \<notin> fst ` set (master_records_dict st1)
                    then st1\<lparr>master_records_dict :=
                               master_records_dict st1 @
                                 [(master_row_excel_num,
                                   \<lparr>m_MasterRow = master_row_excel_num,
                                    m_MasterName = display (customer_name col_map) work r1,
                                    m_MasterAddress = display (address col_map) work r1,
                                    m_Duplicates = [],
                                    m_master_uid = uuid4 (uuid_calls st1)\<rparr>)],
                             uuid_calls := uuid_calls st1 + 1\<rparr>
                    else st1)
             in st2\<lparr>master_records_dict :=
                      append_duplicate master_row_excel_num dup_detail (master_records_dict st2)\<rparr>)"

text \<open>One round of the outer loop (lines 145 to 198).\<close>

definition process_block ::
  "scorer \<Rightarrow> (nat \<Rightarrow> string) \<Rightarrow> DeduplicationColumnMap \<Rightarrow> dataframe \<Rightarrow> nat list
     \<Rightarrow> engine_state \<Rightarrow> engine_state" where
  "process_block token_set_ratio uuid4 col_map work block_indices st =
     (if length block_indices < 2 then st
      else fold (process_pair token_set_ratio uuid4 col_map work) (combinations2 block_indices) st)"

definition compare_blocks ::
  "scorer \<Rightarrow> (nat \<Rightarrow> string) \<Rightarrow> DeduplicationColumnMap \<Rightarrow> dataframe \<Rightarrow> (string \<times> nat list) list
     \<Rightarrow> engine_state" where
  "compare_blocks token_set_ratio uuid4 col_map work blocks =
     fold (process_block token_set_ratio uuid4 col_map work) (map snd blocks)
       \<lparr>master_records_dict = [], uuid_calls = 0\<rparr>"

subsection \<open>Finalizing and sorting the groups\<close>

text \<open>Lines 202 to 215.\<close>

definition finalize :: "master_data \<Rightarrow> MasterRecord" where
  "finalize m_data =
     (let sims = map Overall_score (m_Duplicates m_data);
          avg_sim = (if sims \<noteq> [] then py_round (of_int (sum_list sims) / of_nat (length sims)) else 0)
      in \<lparr>MasterRow = m_MasterRow m_data,
          MasterName = m_MasterName m_data,
          MasterAddress = m_MasterAddress m_data,
          DuplicateCount = length (m_Duplicates m_data),
          AvgSimilarity = avg_sim,
          IsLowConfidenceGroup = list_ex IsLowConfidence (m_Duplicates m_data),
          Duplicates = m_Duplicates m_data,
          master_uid = m_master_uid m_data\<rparr>)"

text \<open>
  \<^verbatim>\<open>results_df.sort_values("AvgSimilarity", ascending=False).reset_index(drop=True)\<close>.
  Groups with the same average keep the order pandas gives them; the model keeps their
  order of insertion, which is what pandas does on up to sixteen groups, and nothing
  below depends on the order among equal averages.
\<close>

definition sort_values_desc :: "MasterRecord list \<Rightarrow> MasterRecord list" where
  "sort_values_desc masters_list = sort_key (\<lambda>m. - AvgSimilarity m) masters_list"

subsection \<open>The engine as a whole\<close>

definition build_duplicate_df ::
  "scorer \<Rightarrow> (nat \<Rightarrow> string) \<Rightarrow> dataframe \<Rightarrow> DeduplicationColumnMap
     \<Rightarrow> error + (MasterRecord list \<times> block_stats)" where
  "build_duplicate_df token_set_ratio uuid4 df col_map =
     (let mapped = mapped_cols_from_user_file col_map
      in case find (\<lambda>user_col_name. user_col_name \<notin> set (columns df)) mapped of
           Some user_col_name \<Rightarrow> Inl (MappedColumnNotFound user_col_name (columns df))
         | None \<Rightarrow>
             let cols_to_select = filter (\<lambda>user_col_name. user_col_name \<in> set (columns df)) mapped
             in if cols_to_select = [] then Inl NoValidColumns
                else
                  let work = make_work df cols_to_select col_map;
                      blocks = build_blocks col_map work;
                      st = compare_blocks token_set_ratio uuid4 col_map work blocks;
                      masters_list = map (finalize \<circ> snd) (master_records_dict st)
                  in Inr (sort_values_desc masters_list, make_block_stats blocks))"

section \<open>Notions the properties are stated with\<close>

text \<open>A text in which no two whitespace characters are adjacent.\<close>

definition single_spaced :: "string \<Rightarrow> bool" where
  "single_spaced t = (\<forall>i. Suc i < length t \<longrightarrow> \<not> (is_space (t ! i) \<and> is_space (t ! Suc i)))"

text \<open>The keys of the blocks that hold the row \<open>i\<close>, one entry for each time it is held.\<close>

definition blocks_holding :: "(string \<times> nat list) list \<Rightarrow> nat \<Rightarrow> string list" where
  "blocks_holding blocks i = concat (map (\<lambda>(k, block). map (\<lambda>j. k) (filter (\<lambda>j. j = i) block)) blocks)"

text \<open>The pairs of rows the two nested loops visit, in the order they visit them.\<close>

definition compared_pairs :: "(string \<times> nat list) list \<Rightarrow> (nat \<times> nat) list" where
  "compared_pairs blocks = concat (map (combinations2 \<circ> snd) blocks)"


text \<open>The working copy and the blocks of a table whose mapped columns all exist, and the
  key of its row \<open>i\<close>.\<close>

definition work_of :: "dataframe \<Rightarrow> DeduplicationColumnMap \<Rightarrow> dataframe" where
  "work_of df col_map =
     make_work df
       (filter (\<lambda>c. c \<in> set (columns df)) (mapped_cols_from_user_file col_map)) col_map"

definition key_of_row :: "dataframe \<Rightarrow> DeduplicationColumnMap \<Rightarrow> nat \<Rightarrow> string" where
  "key_of_row df col_map i = block_key col_map (work_of df col_map) (rows (work_of df col_map) ! i)"

text \<open>The zero-based row a display row number stands for: the display number counts from
  one and counts the header row.\<close>

definition row_index :: "int \<Rightarrow> nat" where
  "row_index display_row = nat (display_row - 2)"

text \<open>A result with every generated identifier blanked.\<close>

definition blank_uid :: "DuplicateRecordDetail \<Rightarrow> DuplicateRecordDetail" where
  "blank_uid d = d\<lparr>uid := []\<rparr>"

definition blank_master_uids :: "MasterRecord \<Rightarrow> MasterRecord" where
  "blank_master_uids m = m\<lparr>Duplicates := map blank_uid (Duplicates m), master_uid := []\<rparr>"

definition blank_uids ::
  "error + (MasterRecord list \<times> block_stats) \<Rightarrow> error + (MasterRecord list \<times> block_stats)" where
  "blank_uids result =
     (case result of
        Inl e \<Rightarrow> Inl e
      | Inr (groups, stats) \<Rightarrow> Inr (map blank_master_uids groups, stats))"

text \<open>The scores of a pair of rows of a table: the name score, the address score, and
  the rounded overall score of lines 166 to 170.\<close>

definition pair_name_score :: "scorer \<Rightarrow> dataframe \<Rightarrow> DeduplicationColumnMap \<Rightarrow> nat \<Rightarrow> nat \<Rightarrow> int" where
  "pair_name_score tsr df col_map i1 i2 =
     field_score tsr (customer_name col_map) (work_of df col_map)
       (rows (work_of df col_map) ! i1) (rows (work_of df col_map) ! i2)"

definition pair_addr_score :: "scorer \<Rightarrow> dataframe \<Rightarrow> DeduplicationColumnMap \<Rightarrow> nat \<Rightarrow> nat \<Rightarrow> int" where
  "pair_addr_score tsr df col_map i1 i2 =
     field_score tsr (address col_map) (work_of df col_map)
       (rows (work_of df col_map) ! i1) (rows (work_of df col_map) ! i2)"

definition pair_overall :: "scorer \<Rightarrow> dataframe \<Rightarrow> DeduplicationColumnMap \<Rightarrow> nat \<Rightarrow> nat \<Rightarrow> int" where
  "pair_overall tsr df col_map i1 i2 =
     overall_score col_map (pair_name_score tsr df col_map i1 i2) (pair_addr_score tsr df col_map i1 i2)"

section \<open>Fixed inputs and their results\<close>

text \<open>Matchers for the worked runs: one that scores every pair the same, and one given
  by a table of scores. Two sources of identifiers.\<close>

definition always :: "int \<Rightarrow> scorer" where
  "always n a b = n"

definition scores_from :: "((string \<times> string) \<times> int) list \<Rightarrow> scorer" where
  "scores_from table a b = (case map_of table (a, b) of Some s \<Rightarrow> s | None \<Rightarrow> 0)"

definition uuid_a :: "nat \<Rightarrow> string" where
  "uuid_a k = CHR ''a'' # digits k"

definition uuid_b :: "nat \<Rightarrow> string" where
  "uuid_b k = CHR ''b'' # digits k"

definition map_name_only :: DeduplicationColumnMap where
  "map_name_only =
     \<lparr>customer_name = Some ''name'', address = None, city = None, country = None, tpi = None\<rparr>"

definition map_name_address :: DeduplicationColumnMap where
  "map_name_address =
     \<lparr>customer_name = Some ''name'', address = Some ''addr'', city = None, country = None,
      tpi = None\<rparr>"


definition map_nothing :: DeduplicationColumnMap where
  "map_nothing =
     \<lparr>customer_name = None, address = None, city = None, country = None, tpi = None\<rparr>"

definition two_acme :: dataframe where
  "two_acme =
     \<lparr>columns = [''name'', ''addr''],
      rows = [[''name'' \<mapsto> PStr ''Acme Corporation'', ''addr'' \<mapsto> PStr ''1 Main St''],
              [''name'' \<mapsto> PStr ''ACME CORP'', ''addr'' \<mapsto> PStr ''1 Main St'']]\<rparr>"

definition three_acme :: dataframe where
  "three_acme =
     \<lparr>columns = [''name''],
      rows = [[''name'' \<mapsto> PStr ''Acme Corporation''],
              [''name'' \<mapsto> PStr ''ACME CORP''],
              [''name'' \<mapsto> PStr ''Acme Inc.'']]\<rparr>"

definition acme_akme :: dataframe where
  "acme_akme =
     \<lparr>columns = [''name''],
      rows = [[''name'' \<mapsto> PStr ''Acme Corp''],
              [''name'' \<mapsto> PStr ''Akme Corp''],
              [''name'' \<mapsto> PStr ''Acme Corp Ltd'']]\<rparr>"


definition missing_name :: dataframe where
  "missing_name =
     \<lparr>columns = [''name''],
      rows = [[''name'' \<mapsto> PNone],
              [''name'' \<mapsto> PStr ''''],
              [''name'' \<mapsto> PStr ''None Such Ltd'']]\<rparr>"


definition three_acme_scores :: scorer where
  "three_acme_scores =
     scores_from [((''Acme Corporation'', ''ACME CORP''), 71),
                  ((''Acme Corporation'', ''Acme Inc.''), 72),
                  ((''ACME CORP'', ''Acme Inc.''), 95)]"

definition scores_40_100 :: scorer where
  "scores_40_100 =
     scores_from [((''Acme Corporation'', ''ACME CORP''), 40), ((''1 Main St'', ''1 Main St''), 100)]"

definition scores_71_70 :: scorer where
  "scores_71_70 =
     scores_from [((''Acme Corporation'', ''ACME CORP''), 71), ((''1 Main St'', ''1 Main St''), 70)]"

definition scores_70_68 :: scorer where
  "scores_70_68 =
     scores_from [((''Acme Corporation'', ''ACME CORP''), 70), ((''1 Main St'', ''1 Main St''), 68)]"

text \<open>The results of the worked runs.\<close>

definition stats_one_block_of_two :: block_stats where
  "stats_one_block_of_two =
     \<lparr>total_blocks = 1, max_block_size = 2, avg_block_size = 2, records_in_blocks = 2\<rparr>"

definition dup_3_4 :: DuplicateRecordDetail where
  "dup_3_4 =
     \<lparr>Row = 4, Name = Some ''Acme Inc.'', Address = None, Name_score = Some 95,
      Addr_score = None, Overall_score = 95, IsLowConfidence = False, LLM_conf = None,
      uid = ''a3''\<rparr>"

definition dup_2_3 :: DuplicateRecordDetail where
  "dup_2_3 =
     \<lparr>Row = 3, Name = Some ''ACME CORP'', Address = None, Name_score = Some 71,
      Addr_score = None, Overall_score = 71, IsLowConfidence = True, LLM_conf = None,
      uid = ''a0''\<rparr>"

definition dup_2_4 :: DuplicateRecordDetail where
  "dup_2_4 =
     \<lparr>Row = 4, Name = Some ''Acme Inc.'', Address = None, Name_score = Some 72,
      Addr_score = None, Overall_score = 72, IsLowConfidence = True, LLM_conf = None,
      uid = ''a2''\<rparr>"

definition group_3 :: MasterRecord where
  "group_3 =
     \<lparr>MasterRow = 3, MasterName = Some ''ACME CORP'', MasterAddress = None, DuplicateCount = 1,
      AvgSimilarity = 95, IsLowConfidenceGroup = False, Duplicates = [dup_3_4],
      master_uid = ''a4''\<rparr>"

definition group_2 :: MasterRecord where
  "group_2 =
     \<lparr>MasterRow = 2, MasterName = Some ''Acme Corporation'', MasterAddress = None,
      DuplicateCount = 2, AvgSimilarity = 72, IsLowConfidenceGroup = True,
      Duplicates = [dup_2_3, dup_2_4], master_uid = ''a1''\<rparr>"

definition stats_one_block_of_three :: block_stats where
  "stats_one_block_of_three =
     \<lparr>total_blocks = 1, max_block_size = 3, avg_block_size = 3, records_in_blocks = 3\<rparr>"

definition dup_scored :: "int \<Rightarrow> bool \<Rightarrow> DuplicateRecordDetail" where
  "dup_scored s low =
     \<lparr>Row = 3, Name = Some ''ACME CORP'', Address = None, Name_score = Some s,
      Addr_score = None, Overall_score = s, IsLowConfidence = low, LLM_conf = None,
      uid = ''a0''\<rparr>"

definition group_scored :: "int \<Rightarrow> bool \<Rightarrow> MasterRecord" where
  "group_scored s low =
     \<lparr>MasterRow = 2, MasterName = Some ''Acme Corporation'', MasterAddress = None,
      DuplicateCount = 1, AvgSimilarity = s, IsLowConfidenceGroup = low,
      Duplicates = [dup_scored s low], master_uid = ''a1''\<rparr>"

definition group_71_70 :: MasterRecord where
  "group_71_70 =
     \<lparr>MasterRow = 2, MasterName = Some ''Acme Corporation'', MasterAddress = Some ''1 Main St'',
      DuplicateCount = 1, AvgSimilarity = 70, IsLowConfidenceGroup = True,
      Duplicates =
        [\<lparr>Row = 3, Name = Some ''ACME CORP'', Address = Some ''1 Main St'',
          Name_score = Some 71, Addr_score = Some 70, Overall_score = 70,
          IsLowConfidence = True, LLM_conf = None, uid = ''a0''\<rparr>],
      master_uid = ''a1''\<rparr>"

definition group_acme_ltd :: MasterRecord where
  "group_acme_ltd =
     \<lparr>MasterRow = 2, MasterName = Some ''Acme Corp'', MasterAddress = None, DuplicateCount = 1,
      AvgSimilarity = 100, IsLowConfidenceGroup = False,
      Duplicates =
        [\<lparr>Row = 4, Name = Some ''Acme Corp Ltd'', Address = None, Name_score = Some 100,
          Addr_score = None, Overall_score = 100, IsLowConfidence = False, LLM_conf = None,
          uid = ''a0''\<rparr>],
      master_uid = ''a1''\<rparr>"

definition stats_acme_akme :: block_stats where
  "stats_acme_akme =
     \<lparr>total_blocks = 2, max_block_size = 2, avg_block_size = 3 / 2, records_in_blocks = 3\<rparr>"

section \<open>Notions the proofs use\<close>

definition blocks_upto :: "((string \<rightharpoonup> cell) \<Rightarrow> string) \<Rightarrow> (string \<rightharpoonup> cell) list \<Rightarrow> (string \<times> nat list) list" where
  "blocks_upto g rs = foldl (\<lambda>blocks (i, row). setdefault_append (g row) i blocks) [] (enumerate 0 rs)"

definition dict_inv :: "(int \<Rightarrow> DuplicateRecordDetail \<Rightarrow> bool) \<Rightarrow> (int \<times> master_data) list \<Rightarrow> bool" where
  "dict_inv Q dict =
     (\<forall>k m. (k, m) \<in> set dict \<longrightarrow>
        m_MasterRow m = k \<and> m_Duplicates m \<noteq> [] \<and> (\<forall>d \<in> set (m_Duplicates m). Q k d))"

definition reported :: "(int \<times> master_data) list \<Rightarrow> int \<Rightarrow> int \<Rightarrow> bool" where
  "reported dict k r = (\<exists>m. (k, m) \<in> set dict \<and> (\<exists>d \<in> set (m_Duplicates m). Row d = r))"

definition blank_entry :: "master_data \<Rightarrow> master_data" where
  "blank_entry m = m\<lparr>m_Duplicates := map blank_uid (m_Duplicates m), m_master_uid := []\<rparr>"

definition blank_dict :: "(int \<times> master_data) list \<Rightarrow> (int \<times> master_data) list" where
  "blank_dict dict = map (\<lambda>(k, m). (k, blank_entry m)) dict"

section \<open>Properties of the normalizer\<close>

lemma normalize_empty: "normalize_text (PStr '''') = ''''"
  by (simp add: normalize_text_def lower_def strip_def sub_non_alnum_def)

lemma set_strip: "set (strip s) \<subseteq> set s"
  by (auto simp: strip_def dest!: set_dropWhileD)

lemma sub_spaces_chars:
  "c \<in> set (sub_spaces s) \<Longrightarrow> c = CHR '' '' \<or> (c \<in> set s \<and> \<not> is_space c)"
  by (induction s rule: sub_spaces.induct) (auto split: if_splits dest: set_dropWhileD)

lemma sub_non_alnum_chars:
  "c \<in> set (sub_non_alnum s) \<Longrightarrow> is_lower_alnum c \<or> is_space c"
  by (auto simp: sub_non_alnum_def is_space_def split: if_splits)

lemma normalize_text_chars:
  assumes "c \<in> set (normalize_text v)"
  shows "is_lower_alnum c \<or> c = CHR '' ''"
proof -
  from assms have "c \<in> set (sub_spaces (sub_non_alnum (strip (lower (py_str v)))))"
    using set_strip by (auto simp: normalize_text_def)
  then show ?thesis
    using sub_spaces_chars sub_non_alnum_chars by blast
qed

lemma last_dropWhile: "dropWhile P xs \<noteq> [] \<Longrightarrow> last (dropWhile P xs) = last xs"
  by (metis takeWhile_dropWhile_id last_appendR)

lemma strip_no_outer_space:
  assumes "strip s \<noteq> []"
  shows "\<not> is_space (hd (strip s)) \<and> \<not> is_space (last (strip s))"
proof -
  let ?a = "dropWhile is_space s"
  let ?b = "dropWhile is_space (rev ?a)"
  from assms have b: "?b \<noteq> []" by (simp add: strip_def)
  have a: "?a \<noteq> []"
  proof
    assume "?a = []"
    with b show False by (metis dropWhile.simps(1) rev.simps(1))
  qed
  have "\<not> is_space (hd ?b)" using b by (rule hd_dropWhile)
  then have last: "\<not> is_space (last (strip s))"
    using b by (simp add: strip_def last_rev)
  have "last ?b = last (rev ?a)"
    using b by (rule last_dropWhile)
  then have "hd (strip s) = hd ?a"
    using a b by (simp add: strip_def hd_rev last_rev)
  moreover have "\<not> is_space (hd ?a)" using a by (rule hd_dropWhile)
  ultimately show ?thesis using last by simp
qed

lemma normalize_text_no_outer_space:
  "normalize_text v \<noteq> [] \<Longrightarrow>
   hd (normalize_text v) \<noteq> CHR '' '' \<and> last (normalize_text v) \<noteq> CHR '' ''"
  using strip_no_outer_space [of "sub_spaces (sub_non_alnum (strip (lower (py_str v))))"]
  by (auto simp: normalize_text_def is_space_def)

lemma single_spaced_Nil [simp]: "single_spaced []"
  by (simp add: single_spaced_def)

lemma single_spaced_Cons:
  "single_spaced (a # t) \<longleftrightarrow> (t = [] \<or> \<not> (is_space a \<and> is_space (hd t))) \<and> single_spaced t"
proof (cases t)
  case Nil
  then show ?thesis by (simp add: single_spaced_def)
next
  case (Cons b u)
  have "single_spaced (a # b # u) \<longleftrightarrow> \<not> (is_space a \<and> is_space b) \<and> single_spaced (b # u)"
    unfolding single_spaced_def
  proof (intro iffI conjI allI impI)
    assume h: "\<forall>i. Suc i < length (a # b # u) \<longrightarrow>
                 \<not> (is_space ((a # b # u) ! i) \<and> is_space ((a # b # u) ! Suc i))"
    from h [rule_format, of 0] show "\<not> (is_space a \<and> is_space b)" by simp
    fix i assume "Suc i < length (b # u)"
    with h [rule_format, of "Suc i"]
    show "\<not> (is_space ((b # u) ! i) \<and> is_space ((b # u) ! Suc i))" by simp
  next
    fix i
    assume h: "\<not> (is_space a \<and> is_space b) \<and>
               (\<forall>i. Suc i < length (b # u) \<longrightarrow>
                 \<not> (is_space ((b # u) ! i) \<and> is_space ((b # u) ! Suc i)))"
      and i: "Suc i < length (a # b # u)"
    show "\<not> (is_space ((a # b # u) ! i) \<and> is_space ((a # b # u) ! Suc i))"
    proof (cases i)
      case 0
      with h show ?thesis by simp
    next
      case (Suc j)
      with h i show ?thesis by simp
    qed
  qed
  then show ?thesis by (simp add: Cons)
qed

lemma hd_sub_spaces:
  "s \<noteq> [] \<Longrightarrow> sub_spaces s \<noteq> [] \<and> (is_space (hd (sub_spaces s)) \<longleftrightarrow> is_space (hd s))"
  by (cases s) (auto simp: is_space_def)

lemma single_spaced_sub_spaces: "single_spaced (sub_spaces s)"
proof (induction s rule: sub_spaces.induct)
  case 1
  then show ?case by simp
next
  case (2 c cs)
  show ?case
  proof (cases "is_space c")
    case True
    let ?r = "dropWhile is_space cs"
    have "sub_spaces ?r = [] \<or> \<not> is_space (hd (sub_spaces ?r))"
    proof (cases "?r = []")
      case True
      show ?thesis unfolding True by simp
    next
      case False
      then have "\<not> is_space (hd ?r)" by (rule hd_dropWhile)
      with hd_sub_spaces [OF False] show ?thesis by simp
    qed
    with True 2 show ?thesis
      by (auto simp: single_spaced_Cons)
  next
    case False
    with 2 show ?thesis
      by (auto simp: single_spaced_Cons)
  qed
qed

lemma single_spaced_drop: "single_spaced t \<Longrightarrow> single_spaced (drop n t)"
  unfolding single_spaced_def
proof (intro allI impI)
  fix i
  assume h: "\<forall>i. Suc i < length t \<longrightarrow> \<not> (is_space (t ! i) \<and> is_space (t ! Suc i))"
    and i: "Suc i < length (drop n t)"
  then have "Suc (n + i) < length t" by simp
  with h have "\<not> (is_space (t ! (n + i)) \<and> is_space (t ! Suc (n + i)))" by blast
  with i show "\<not> (is_space (drop n t ! i) \<and> is_space (drop n t ! Suc i))" by simp
qed

lemma single_spaced_rev: "single_spaced t \<Longrightarrow> single_spaced (rev t)"
  unfolding single_spaced_def
proof (intro allI impI)
  fix i
  assume h: "\<forall>i. Suc i < length t \<longrightarrow> \<not> (is_space (t ! i) \<and> is_space (t ! Suc i))"
    and i: "Suc i < length (rev t)"
  define j where "j = length t - Suc (Suc i)"
  from i have j: "Suc j < length t" "length t - Suc i = Suc j" "length t - Suc (Suc i) = j"
    by (simp_all add: j_def)
  from h j(1) have "\<not> (is_space (t ! j) \<and> is_space (t ! Suc j))" by blast
  with i j show "\<not> (is_space (rev t ! i) \<and> is_space (rev t ! Suc i))"
    by (auto simp: rev_nth)
qed

lemma single_spaced_strip: "single_spaced t \<Longrightarrow> single_spaced (strip t)"
  by (simp add: strip_def dropWhile_eq_drop single_spaced_drop single_spaced_rev)

lemma normalize_text_single_spaced: "single_spaced (normalize_text v)"
  by (simp add: normalize_text_def single_spaced_strip single_spaced_sub_spaces)

section \<open>Properties of the engine\<close>

subsection \<open>The working copy\<close>

lemma length_rows_set_column [simp]: "length (rows (set_column l f w)) = length (rows w)"
  by (simp add: set_column_def)

lemma rows_set_column_nth:
  "i < length (rows w) \<Longrightarrow> rows (set_column l f w) ! i = (rows w ! i)(l \<mapsto> f i (rows w ! i))"
  by (simp add: set_column_def nth_enumerate_eq)

lemma label_in_set_column [simp]: "l \<in> set (columns (set_column l f w))"
  by (simp add: set_column_def)

lemma columns_set_column_mono: "c \<in> set (columns w) \<Longrightarrow> c \<in> set (columns (set_column l f w))"
  by (simp add: set_column_def)

lemma length_rows_normalize_field [simp]:
  "length (rows (normalize_field cm lf w)) = length (rows w)"
  by (simp add: normalize_field_def Let_def)

lemma rows_normalize_field_nth:
  "i < length (rows w) \<Longrightarrow>
   \<exists>s. rows (normalize_field cm lf w) ! i = (rows w ! i)(lf @ ''_norm'' \<mapsto> PStr s)"
  by (auto simp: normalize_field_def Let_def rows_set_column_nth)


lemma columns_normalize_field_mono:
  "c \<in> set (columns w) \<Longrightarrow> c \<in> set (columns (normalize_field cm lf w))"
  by (simp add: normalize_field_def Let_def columns_set_column_mono)

lemma length_rows_make_work [simp]: "length (rows (make_work df cols cm)) = length (rows df)"
  by (simp add: make_work_def logical_fields_for_norm_def select_columns_def)


lemma make_work_row_shape:
  assumes "i < length (rows df)"
  shows "\<exists>r0 s1 s2 s3 s4. rows (make_work df cols cm) ! i =
           r0(''ExcelRow'' \<mapsto> PInt (int i), ''customer_name_norm'' \<mapsto> PStr s1,
              ''address_norm'' \<mapsto> PStr s2, ''city_norm'' \<mapsto> PStr s3, ''country_norm'' \<mapsto> PStr s4)"
proof -
  define w0 where "w0 = set_column ''ExcelRow'' (\<lambda>i row. PInt (int i)) (select_columns cols df)"
  define w1 where "w1 = normalize_field cm ''customer_name'' w0"
  define w2 where "w2 = normalize_field cm ''address'' w1"
  define w3 where "w3 = normalize_field cm ''city'' w2"
  define w4 where "w4 = normalize_field cm ''country'' w3"
  have w: "make_work df cols cm = w4"
    by (simp add: make_work_def logical_fields_for_norm_def w0_def w1_def w2_def w3_def w4_def)
  have len0: "i < length (rows w0)"
    using assms by (simp add: w0_def select_columns_def)
  have r0: "rows w0 ! i = (rows (select_columns cols df) ! i)(''ExcelRow'' \<mapsto> PInt (int i))"
    using assms by (simp add: w0_def rows_set_column_nth select_columns_def)
  obtain s1 where r1: "rows w1 ! i = (rows w0 ! i)(''customer_name_norm'' \<mapsto> PStr s1)"
    using rows_normalize_field_nth [OF len0, of cm "''customer_name''"] by (auto simp: w1_def)
  have len1: "i < length (rows w1)" using len0 by (simp add: w1_def)
  obtain s2 where r2: "rows w2 ! i = (rows w1 ! i)(''address_norm'' \<mapsto> PStr s2)"
    using rows_normalize_field_nth [OF len1, of cm "''address''"] by (auto simp: w2_def)
  have len2: "i < length (rows w2)" using len1 by (simp add: w2_def)
  obtain s3 where r3: "rows w3 ! i = (rows w2 ! i)(''city_norm'' \<mapsto> PStr s3)"
    using rows_normalize_field_nth [OF len2, of cm "''city''"] by (auto simp: w3_def)
  have len3: "i < length (rows w3)" using len2 by (simp add: w3_def)
  obtain s4 where r4: "rows w4 ! i = (rows w3 ! i)(''country_norm'' \<mapsto> PStr s4)"
    using rows_normalize_field_nth [OF len3, of cm "''country''"] by (auto simp: w4_def)
  show ?thesis
    unfolding w r4 r3 r2 r1 r0 by blast
qed

lemma excel_row_make_work:
  assumes "i < length (rows df)"
  shows "excel_row (rows (make_work df cols cm) ! i) = int i"
proof -
  from make_work_row_shape [OF assms, of cols cm] obtain r0 s1 s2 s3 s4 where
    "rows (make_work df cols cm) ! i =
           r0(''ExcelRow'' \<mapsto> PInt (int i), ''customer_name_norm'' \<mapsto> PStr s1,
              ''address_norm'' \<mapsto> PStr s2, ''city_norm'' \<mapsto> PStr s3, ''country_norm'' \<mapsto> PStr s4)"
    by blast
  then show ?thesis by (simp add: excel_row_def cell_at_def)
qed

subsection \<open>The blocks\<close>

lemma blocks_holding_Nil [simp]: "blocks_holding [] j = []"
  by (simp add: blocks_holding_def)

lemma blocks_holding_Cons [simp]:
  "blocks_holding ((k, b) # blocks) j = map (\<lambda>j. k) (filter (\<lambda>x. x = j) b) @ blocks_holding blocks j"
  by (simp add: blocks_holding_def)

lemma blocks_holding_fresh:
  "\<forall>(k, b) \<in> set blocks. i \<notin> set b \<Longrightarrow> blocks_holding blocks i = []"
  by (induction blocks) (auto simp: filter_empty_conv)

lemma blocks_holding_setdefault_append:
  "\<forall>(k, b) \<in> set blocks. i \<notin> set b \<Longrightarrow>
   blocks_holding (setdefault_append key i blocks) j =
     (if j = i then [key] else blocks_holding blocks j)"
proof (induction blocks)
  case Nil
  then show ?case by simp
next
  case (Cons kb blocks)
  obtain k b where kb: "kb = (k, b)" by (cases kb)
  from Cons.prems have fresh: "i \<notin> set b" and rest: "\<forall>(k, b) \<in> set blocks. i \<notin> set b"
    by (auto simp: kb)
  have b_none: "filter (\<lambda>x. x = i) b = []"
    using fresh by (auto simp: filter_empty_conv)
  show ?case
    using Cons.IH [OF rest] b_none blocks_holding_fresh [OF rest]
    by (auto simp: kb)
qed

lemma in_block_holding:
  "(k, b) \<in> set blocks \<Longrightarrow> i \<in> set b \<Longrightarrow> k \<in> set (blocks_holding blocks i)"
  by (induction blocks) (auto simp: filter_empty_conv)

lemma setdefault_append_sorted:
  "\<forall>(k, b) \<in> set blocks. sorted_wrt (<) b \<and> (\<forall>j \<in> set b. j < i) \<Longrightarrow>
   \<forall>(k, b) \<in> set (setdefault_append key i blocks). sorted_wrt (<) b \<and> (\<forall>j \<in> set b. j < Suc i)"
  by (induction key i blocks rule: setdefault_append.induct)
    (auto simp: sorted_wrt_append less_Suc_eq split: if_splits)

lemma blocks_upto_snoc:
  "blocks_upto g (rs @ [r]) = setdefault_append (g r) (length rs) (blocks_upto g rs)"
  by (simp add: blocks_upto_def enumerate_append_eq)

lemma blocks_upto_sorted:
  "\<forall>(k, b) \<in> set (blocks_upto g rs). sorted_wrt (<) b \<and> (\<forall>j \<in> set b. j < length rs)"
proof (induction rs rule: rev_induct)
  case Nil
  then show ?case by (simp add: blocks_upto_def)
next
  case (snoc r rs)
  show ?case
    using setdefault_append_sorted [OF snoc.IH, of "g r"]
    by (simp add: blocks_upto_snoc)
qed

lemma blocks_upto_holding:
  "blocks_holding (blocks_upto g rs) j = (if j < length rs then [g (rs ! j)] else [])"
proof (induction rs arbitrary: j rule: rev_induct)
  case Nil
  then show ?case by (simp add: blocks_upto_def)
next
  case (snoc r rs)
  have fresh: "\<forall>(k, b) \<in> set (blocks_upto g rs). length rs \<notin> set b"
    using blocks_upto_sorted [of g rs] by fastforce
  show ?case
    using blocks_holding_setdefault_append [OF fresh, of "g r" j] snoc.IH [of j]
    by (auto simp: blocks_upto_snoc nth_append)
qed

lemma build_blocks_upto: "build_blocks cm work = blocks_upto (block_key cm work) (rows work)"
  by (simp add: build_blocks_def blocks_upto_def)

lemma build_blocks_holding:
  "blocks_holding (build_blocks cm work) i =
     (if i < length (rows work) then [block_key cm work (rows work ! i)] else [])"
  by (simp add: build_blocks_upto blocks_upto_holding)

lemma build_blocks_member:
  assumes "(k, b) \<in> set (build_blocks cm work)" and "i \<in> set b"
  shows "i < length (rows work) \<and> block_key cm work (rows work ! i) = k"
proof -
  have "k \<in> set (blocks_holding (build_blocks cm work) i)"
    using assms by (rule in_block_holding)
  then show ?thesis
    by (simp add: build_blocks_holding split: if_splits)
qed

lemma build_blocks_sorted:
  "(k, b) \<in> set (build_blocks cm work) \<Longrightarrow> sorted_wrt (<) b"
  using blocks_upto_sorted [of "block_key cm work" "rows work"]
  by (auto simp: build_blocks_upto)

lemma combinations2_sorted:
  "sorted_wrt (<) xs \<Longrightarrow> (a, b) \<in> set (combinations2 xs) \<Longrightarrow> a < b \<and> a \<in> set xs \<and> b \<in> set xs"
  by (induction xs) auto

lemma compared_pairs_build_blocks:
  assumes "(i1, i2) \<in> set (compared_pairs (build_blocks cm work))"
  shows "i1 < i2 \<and> i2 < length (rows work)
         \<and> block_key cm work (rows work ! i1) = block_key cm work (rows work ! i2)"
proof -
  from assms obtain k b where kb: "(k, b) \<in> set (build_blocks cm work)"
    and p: "(i1, i2) \<in> set (combinations2 b)"
    by (auto simp: compared_pairs_def)
  from combinations2_sorted [OF build_blocks_sorted [OF kb] p]
  have "i1 < i2" "i1 \<in> set b" "i2 \<in> set b" by simp_all
  with build_blocks_member [OF kb] show ?thesis by simp
qed

subsection \<open>The outcome of scoring a pair\<close>

lemma score_pair_Some:
  assumes "score_pair tsr cm work r1 r2 u = Some d"
  shows "Row d = excel_row r2 + 2"
    and "Overall_score d =
           overall_score cm (field_score tsr (customer_name cm) work r1 r2)
             (field_score tsr (address cm) work r1 r2)"
    and "70 \<le> Overall_score d"
    and "IsLowConfidence d = (Overall_score d < 90)"
    and "uid d = u"
  using assms by (auto simp: score_pair_def Let_def split: if_splits)

lemma score_pair_accepts_iff:
  "(\<exists>d. score_pair tsr cm work r1 r2 u = Some d) \<longleftrightarrow>
     \<not> (truthy (customer_name cm) \<and> field_score tsr (customer_name cm) work r1 r2 < 70)
     \<and> 70 \<le> overall_score cm (field_score tsr (customer_name cm) work r1 r2)
                (field_score tsr (address cm) work r1 r2)"
  by (auto simp: score_pair_def Let_def)

subsection \<open>The loop over the pairs\<close>

lemma process_pair_None:
  "score_pair tsr cm work (rows work ! fst p) (rows work ! snd p) (uuid4 (uuid_calls st)) = None \<Longrightarrow>
   process_pair tsr uuid4 cm work p st = st"
  by (simp add: process_pair_def Let_def)

lemma process_pair_Some:
  assumes "score_pair tsr cm work (rows work ! fst p) (rows work ! snd p) (uuid4 (uuid_calls st)) = Some d"
  shows "master_records_dict (process_pair tsr uuid4 cm work p st) =
           append_duplicate (excel_row (rows work ! fst p) + 2) d
             (if excel_row (rows work ! fst p) + 2 \<notin> fst ` set (master_records_dict st)
              then master_records_dict st @
                     [(excel_row (rows work ! fst p) + 2,
                       \<lparr>m_MasterRow = excel_row (rows work ! fst p) + 2,
                        m_MasterName = display (customer_name cm) work (rows work ! fst p),
                        m_MasterAddress = display (address cm) work (rows work ! fst p),
                        m_Duplicates = [],
                        m_master_uid = uuid4 (Suc (uuid_calls st))\<rparr>)]
              else master_records_dict st)"
  using assms by (simp add: process_pair_def Let_def)

lemma in_append_duplicate:
  "(k, m) \<in> set (append_duplicate key d dict) \<Longrightarrow>
     (k \<noteq> key \<and> (k, m) \<in> set dict)
     \<or> (k = key \<and> (\<exists>m0. (k, m0) \<in> set dict \<and> m = m0\<lparr>m_Duplicates := m_Duplicates m0 @ [d]\<rparr>))"
  by (auto simp: append_duplicate_def split: if_splits)

text \<open>An invariant of the dictionary: every entry is filed under its own row number, has
  a duplicate, and each of its duplicates satisfies \<open>Q\<close>.\<close>

lemma dict_inv_append_duplicate:
  assumes inv: "dict_inv Q dict" and q: "Q key d"
  shows "dict_inv Q
           (append_duplicate key d
              (if key \<notin> fst ` set dict
               then dict @ [(key, \<lparr>m_MasterRow = key, m_MasterName = n, m_MasterAddress = a,
                                   m_Duplicates = [], m_master_uid = u\<rparr>)]
               else dict))"
  unfolding dict_inv_def
proof (intro allI impI)
  fix k m
  assume km: "(k, m) \<in> set (append_duplicate key d
              (if key \<notin> fst ` set dict
               then dict @ [(key, \<lparr>m_MasterRow = key, m_MasterName = n, m_MasterAddress = a,
                                   m_Duplicates = [], m_master_uid = u\<rparr>)]
               else dict))"
  from in_append_duplicate [OF km]
  show "m_MasterRow m = k \<and> m_Duplicates m \<noteq> [] \<and> (\<forall>d \<in> set (m_Duplicates m). Q k d)"
    using inv q unfolding dict_inv_def by (fastforce split: if_splits)
qed

lemma dict_inv_process_pair:
  assumes inv: "dict_inv Q (master_records_dict st)"
    and q: "\<And>u d. score_pair tsr cm work (rows work ! fst p) (rows work ! snd p) u = Some d
              \<Longrightarrow> Q (excel_row (rows work ! fst p) + 2) d"
  shows "dict_inv Q (master_records_dict (process_pair tsr uuid4 cm work p st))"
proof (cases "score_pair tsr cm work (rows work ! fst p) (rows work ! snd p) (uuid4 (uuid_calls st))")
  case None
  then show ?thesis using inv by (simp add: process_pair_None)
next
  case (Some d)
  show ?thesis
    unfolding process_pair_Some [where ?uuid4.0 = uuid4 and st = st, OF Some]
    by (rule dict_inv_append_duplicate [OF inv q [OF Some]])
qed

lemma dict_inv_fold_process_pair:
  assumes "dict_inv Q (master_records_dict st)"
    and "\<And>p u d. p \<in> set ps \<Longrightarrow>
            score_pair tsr cm work (rows work ! fst p) (rows work ! snd p) u = Some d
              \<Longrightarrow> Q (excel_row (rows work ! fst p) + 2) d"
  shows "dict_inv Q (master_records_dict (fold (process_pair tsr uuid4 cm work) ps st))"
  using assms
proof (induction ps arbitrary: st)
  case Nil
  then show ?case by simp
next
  case (Cons p ps)
  have "dict_inv Q (master_records_dict (process_pair tsr uuid4 cm work p st))"
    by (rule dict_inv_process_pair [OF Cons.prems(1)]) (rule Cons.prems(2), simp_all)
  then show ?case
    using Cons.IH Cons.prems(2) by simp
qed

lemma combinations2_short: "length xs < 2 \<Longrightarrow> combinations2 xs = []"
  by (cases xs) (auto simp: less_Suc_eq)

lemma process_block_fold:
  "process_block tsr uuid4 cm work b = fold (process_pair tsr uuid4 cm work) (combinations2 b)"
  by (auto simp: process_block_def combinations2_short fun_eq_iff)

lemma compare_blocks_pairs:
  "compare_blocks tsr uuid4 cm work blocks =
     fold (process_pair tsr uuid4 cm work) (compared_pairs blocks)
       \<lparr>master_records_dict = [], uuid_calls = 0\<rparr>"
proof -
  have "fold (process_block tsr uuid4 cm work) bs st
        = fold (process_pair tsr uuid4 cm work) (concat (map combinations2 bs)) st" for bs st
    by (induction bs arbitrary: st) (simp_all add: process_block_fold)
  then show ?thesis
    by (simp add: compare_blocks_def compared_pairs_def)
qed

lemma dict_inv_compare_blocks:
  assumes "\<And>i1 i2 u d. (i1, i2) \<in> set (compared_pairs blocks) \<Longrightarrow>
            score_pair tsr cm work (rows work ! i1) (rows work ! i2) u = Some d
              \<Longrightarrow> Q (excel_row (rows work ! i1) + 2) d"
  shows "dict_inv Q (master_records_dict (compare_blocks tsr uuid4 cm work blocks))"
  unfolding compare_blocks_pairs
proof (rule dict_inv_fold_process_pair)
  show "dict_inv Q (master_records_dict \<lparr>master_records_dict = [], uuid_calls = 0\<rparr>)"
    by (simp add: dict_inv_def)
next
  fix p u d
  assume "p \<in> set (compared_pairs blocks)"
    and "score_pair tsr cm work (rows work ! fst p) (rows work ! snd p) u = Some d"
  then show "Q (excel_row (rows work ! fst p) + 2) d"
    using assms [of "fst p" "snd p" u d] by simp
qed

subsection \<open>The result\<close>

lemma build_duplicate_df_Inr:
  assumes "build_duplicate_df tsr uuid4 df cm = Inr (groups, stats)"
  shows "groups = sort_values_desc (map (finalize \<circ> snd)
            (master_records_dict (compare_blocks tsr uuid4 cm (work_of df cm)
               (build_blocks cm (work_of df cm)))))"
    and "stats = make_block_stats (build_blocks cm (work_of df cm))"
    and "set (mapped_cols_from_user_file cm) \<subseteq> set (columns df)"
    and "mapped_cols_from_user_file cm \<noteq> []"
  using assms
  by (auto simp: build_duplicate_df_def Let_def work_of_def find_None_iff filter_empty_conv
      split: option.splits if_splits)

lemma set_sort_values_desc [simp]: "set (sort_values_desc ms) = set ms"
  by (simp add: sort_values_desc_def)

lemma group_of_result:
  assumes res: "build_duplicate_df tsr uuid4 df cm = Inr (groups, stats)"
    and g: "g \<in> set groups"
    and inv: "\<And>i1 i2 u d. (i1, i2) \<in> set (compared_pairs (build_blocks cm (work_of df cm))) \<Longrightarrow>
            score_pair tsr cm (work_of df cm) (rows (work_of df cm) ! i1) (rows (work_of df cm) ! i2) u = Some d
              \<Longrightarrow> Q (excel_row (rows (work_of df cm) ! i1) + 2) d"
  shows "Duplicates g \<noteq> [] \<and> (\<forall>d \<in> set (Duplicates g). Q (MasterRow g) d)"
proof -
  let ?dict = "master_records_dict (compare_blocks tsr uuid4 cm (work_of df cm)
               (build_blocks cm (work_of df cm)))"
  from build_duplicate_df_Inr(1) [OF res] g
  obtain k m where km: "(k, m) \<in> set ?dict" and gm: "g = finalize m"
    by auto
  have "dict_inv Q ?dict"
    by (rule dict_inv_compare_blocks) (rule inv)
  with km have "m_MasterRow m = k" "m_Duplicates m \<noteq> []" "\<forall>d \<in> set (m_Duplicates m). Q k d"
    by (auto simp: dict_inv_def)
  then show ?thesis
    by (simp add: gm finalize_def Let_def)
qed

lemma length_rows_work_of [simp]: "length (rows (work_of df cm)) = length (rows df)"
  by (simp add: work_of_def)

lemma excel_row_work_of:
  "i < length (rows df) \<Longrightarrow> excel_row (rows (work_of df cm) ! i) = int i"
  by (simp add: work_of_def excel_row_make_work)

lemma row_index_display [simp]: "row_index (int i + 2) = i"
  by (simp add: row_index_def)



lemma result_pairs_were_compared:
  assumes "build_duplicate_df tsr uuid4 df cm = Inr (groups, stats)"
    and "g \<in> set groups" and "d \<in> set (Duplicates g)"
  shows "(row_index (MasterRow g), row_index (Row d))
           \<in> set (compared_pairs (build_blocks cm (work_of df cm)))"
proof -
  let ?Q = "\<lambda>k d. (row_index k, row_index (Row d))
                    \<in> set (compared_pairs (build_blocks cm (work_of df cm)))"
  have "Duplicates g \<noteq> [] \<and> (\<forall>d \<in> set (Duplicates g). ?Q (MasterRow g) d)"
  proof (rule group_of_result [OF assms(1,2), where Q = ?Q])
    fix i1 i2 u d
    assume p: "(i1, i2) \<in> set (compared_pairs (build_blocks cm (work_of df cm)))"
      and s: "score_pair tsr cm (work_of df cm) (rows (work_of df cm) ! i1)
                (rows (work_of df cm) ! i2) u = Some d"
    from compared_pairs_build_blocks [OF p] have lt: "i1 < i2" "i2 < length (rows df)"
      by simp_all
    then have "i1 < length (rows df)" by simp
    with lt score_pair_Some(1) [OF s] p
    show "?Q (excel_row (rows (work_of df cm) ! i1) + 2) d"
      by (simp add: excel_row_work_of)
  qed
  with assms(3) show ?thesis by blast
qed



lemma finalize_fields:
  "DuplicateCount (finalize m) = length (Duplicates (finalize m))"
  "AvgSimilarity (finalize m) =
     (if Duplicates (finalize m) = [] then 0
      else py_round (of_int (sum_list (map Overall_score (Duplicates (finalize m))))
                 / of_nat (length (Duplicates (finalize m)))))"
  "IsLowConfidenceGroup (finalize m) \<longleftrightarrow> (\<exists>d \<in> set (Duplicates (finalize m)). IsLowConfidence d)"
  by (simp_all add: finalize_def Let_def list_ex_iff)

lemma sort_values_desc_sorted:
  "sorted_wrt (\<lambda>a b. AvgSimilarity b \<le> AvgSimilarity a) (sort_values_desc ms)"
proof -
  have "sorted (map (\<lambda>m. - AvgSimilarity m) (sort_key (\<lambda>m. - AvgSimilarity m) ms))"
    by (rule sorted_sort_key)
  then show ?thesis
    by (simp add: sort_values_desc_def sorted_map)
qed

subsection \<open>Which pairs are compared\<close>

lemma setdefault_append_keys:
  "map fst (setdefault_append key i blocks) =
     (if key \<in> set (map fst blocks) then map fst blocks else map fst blocks @ [key])"
  by (induction key i blocks rule: setdefault_append.induct) auto

lemma blocks_upto_distinct: "distinct (map fst (blocks_upto g rs))"
proof (induction rs rule: rev_induct)
  case Nil
  then show ?case by (simp add: blocks_upto_def)
next
  case (snoc r rs)
  then show ?case
    by (simp add: blocks_upto_snoc setdefault_append_keys)
qed

lemma block_holding_in:
  "k \<in> set (blocks_holding blocks i) \<Longrightarrow> \<exists>b. (k, b) \<in> set blocks \<and> i \<in> set b"
proof (induction blocks)
  case Nil
  then show ?case by simp
next
  case (Cons kb blocks)
  obtain k' b' where kb: "kb = (k', b')" by (cases kb)
  from Cons.prems have "(k = k' \<and> i \<in> set b') \<or> k \<in> set (blocks_holding blocks i)"
    by (auto simp: kb)
  then show ?case
    using Cons.IH by (force simp: kb)
qed

lemma combinations2_complete:
  "sorted_wrt (<) xs \<Longrightarrow> a \<in> set xs \<Longrightarrow> b \<in> set xs \<Longrightarrow> a < b \<Longrightarrow> (a, b) \<in> set (combinations2 xs)"
  for a b :: nat
  by (induction xs) (auto dest: less_asym)

lemma compared_pairs_iff:
  "(i1, i2) \<in> set (compared_pairs (build_blocks cm work)) \<longleftrightarrow>
     i1 < i2 \<and> i2 < length (rows work)
     \<and> block_key cm work (rows work ! i1) = block_key cm work (rows work ! i2)"
proof
  assume "(i1, i2) \<in> set (compared_pairs (build_blocks cm work))"
  then show "i1 < i2 \<and> i2 < length (rows work)
     \<and> block_key cm work (rows work ! i1) = block_key cm work (rows work ! i2)"
    by (rule compared_pairs_build_blocks)
next
  assume a: "i1 < i2 \<and> i2 < length (rows work)
     \<and> block_key cm work (rows work ! i1) = block_key cm work (rows work ! i2)"
  let ?k = "block_key cm work (rows work ! i1)"
  let ?blocks = "build_blocks cm work"
  from a have "?k \<in> set (blocks_holding ?blocks i1)" "?k \<in> set (blocks_holding ?blocks i2)"
    by (simp_all add: build_blocks_holding)
  then obtain b1 b2 where b1: "(?k, b1) \<in> set ?blocks" "i1 \<in> set b1"
    and b2: "(?k, b2) \<in> set ?blocks" "i2 \<in> set b2"
    by (blast dest: block_holding_in)
  have "distinct (map fst ?blocks)"
    by (simp add: build_blocks_upto blocks_upto_distinct)
  then have "b1 = b2"
    using b1(1) b2(1) by (rule eq_key_imp_eq_value)
  with b1 b2 a have "(i1, i2) \<in> set (combinations2 b1)"
    by (auto intro: combinations2_complete build_blocks_sorted)
  with b1(1) show "(i1, i2) \<in> set (compared_pairs ?blocks)"
    by (force simp: compared_pairs_def)
qed

subsection \<open>Every accepted pair is reported\<close>

lemma reported_append_duplicate_mono:
  assumes "reported dict k r"
  shows "reported (append_duplicate key d dict) k r"
proof -
  from assms obtain m d0 where m: "(k, m) \<in> set dict" and d0: "d0 \<in> set (m_Duplicates m)" "Row d0 = r"
    by (auto simp: reported_def)
  let ?m = "if k = key then m\<lparr>m_Duplicates := m_Duplicates m @ [d]\<rparr> else m"
  have "(k, ?m) \<in> set (append_duplicate key d dict)"
    using m by (force simp: append_duplicate_def image_iff)
  moreover have "d0 \<in> set (m_Duplicates ?m)"
    using d0 by simp
  ultimately show ?thesis
    using d0(2) unfolding reported_def by blast
qed

lemma reported_append_mono: "reported dict k r \<Longrightarrow> reported (dict @ extra) k r"
  unfolding reported_def by auto

lemma reported_append_duplicate_new:
  assumes "key \<in> fst ` set dict"
  shows "reported (append_duplicate key d dict) key (Row d)"
proof -
  from assms obtain m where m: "(key, m) \<in> set dict" by auto
  have "(key, m\<lparr>m_Duplicates := m_Duplicates m @ [d]\<rparr>) \<in> set (append_duplicate key d dict)"
    using m by (force simp: append_duplicate_def image_iff)
  then show ?thesis
    unfolding reported_def by force
qed

lemma reported_process_pair_mono:
  assumes "reported (master_records_dict st) k r"
  shows "reported (master_records_dict (process_pair tsr uuid4 cm work p st)) k r"
proof (cases "score_pair tsr cm work (rows work ! fst p) (rows work ! snd p) (uuid4 (uuid_calls st))")
  case None
  then show ?thesis using assms by (simp add: process_pair_None)
next
  case (Some d)
  show ?thesis
    unfolding process_pair_Some [where ?uuid4.0 = uuid4 and st = st, OF Some]
    using assms by (auto intro: reported_append_duplicate_mono reported_append_mono)
qed

lemma reported_process_pair_new:
  assumes "score_pair tsr cm work (rows work ! fst p) (rows work ! snd p) (uuid4 (uuid_calls st)) = Some d"
  shows "reported (master_records_dict (process_pair tsr uuid4 cm work p st))
           (excel_row (rows work ! fst p) + 2) (excel_row (rows work ! snd p) + 2)"
proof -
  have "reported (master_records_dict (process_pair tsr uuid4 cm work p st))
           (excel_row (rows work ! fst p) + 2) (Row d)"
    unfolding process_pair_Some [where ?uuid4.0 = uuid4 and st = st, OF assms]
    by (rule reported_append_duplicate_new) auto
  then show ?thesis
    by (simp add: score_pair_Some(1) [OF assms])
qed

lemma score_pair_uid_irrelevant:
  "(score_pair tsr cm work r1 r2 u = None) = (score_pair tsr cm work r1 r2 u' = None)"
  by (simp add: score_pair_def Let_def)

lemma reported_fold_process_pair:
  assumes "p \<in> set ps"
    and "score_pair tsr cm work (rows work ! fst p) (rows work ! snd p) u \<noteq> None"
  shows "reported (master_records_dict (fold (process_pair tsr uuid4 cm work) ps st))
           (excel_row (rows work ! fst p) + 2) (excel_row (rows work ! snd p) + 2)"
  using assms(1)
proof (induction ps arbitrary: st)
  case Nil
  then show ?case by simp
next
  case (Cons q ps)
  have mono: "reported (master_records_dict (fold (process_pair tsr uuid4 cm work) qs st')) k r"
    if "reported (master_records_dict st') k r" for qs st' k r
    using that by (induction qs arbitrary: st') (simp_all add: reported_process_pair_mono)
  show ?case
  proof (cases "q = p")
    case True
    from assms(2) obtain d where
      "score_pair tsr cm work (rows work ! fst p) (rows work ! snd p) (uuid4 (uuid_calls st)) = Some d"
      using score_pair_uid_irrelevant [of tsr cm work "rows work ! fst p" "rows work ! snd p" u "uuid4 (uuid_calls st)"]
      by auto
    from reported_process_pair_new [where ?uuid4.0 = uuid4 and st = st, OF this] show ?thesis
      by (simp add: True mono)
  next
    case False
    with Cons.prems have "p \<in> set ps" by simp
    from Cons.IH [OF this] show ?thesis by simp
  qed
qed

subsection \<open>The identifiers do not influence anything else\<close>

lemma blank_dict_keys [simp]: "fst ` set (blank_dict dict) = fst ` set dict"
  by (force simp: blank_dict_def)

lemma blank_dict_append [simp]: "blank_dict (xs @ ys) = blank_dict xs @ blank_dict ys"
  by (simp add: blank_dict_def)

lemma blank_dict_append_duplicate:
  "blank_dict (append_duplicate key d dict) = append_duplicate key (blank_uid d) (blank_dict dict)"
  by (auto simp: blank_dict_def append_duplicate_def blank_entry_def)

lemma score_pair_blank:
  "map_option blank_uid (score_pair tsr cm work r1 r2 u) = score_pair tsr cm work r1 r2 []"
  by (simp add: score_pair_def Let_def blank_uid_def)

lemma blank_process_pair:
  assumes "blank_dict (master_records_dict st1) = blank_dict (master_records_dict st2)"
  shows "blank_dict (master_records_dict (process_pair tsr u1 cm work p st1))
         = blank_dict (master_records_dict (process_pair tsr u2 cm work p st2))"
proof -
  let ?r1 = "rows work ! fst p" and ?r2 = "rows work ! snd p"
  have keys: "fst ` set (master_records_dict st1) = fst ` set (master_records_dict st2)"
    using assms by (metis blank_dict_keys)
  show ?thesis
  proof (cases "score_pair tsr cm work ?r1 ?r2 []")
    case None
    then have "score_pair tsr cm work ?r1 ?r2 (u1 (uuid_calls st1)) = None"
      "score_pair tsr cm work ?r1 ?r2 (u2 (uuid_calls st2)) = None"
      using score_pair_uid_irrelevant by blast+
    then show ?thesis
      using assms by (simp add: process_pair_None)
  next
    case (Some d0)
    then obtain d1 d2 where
      d1: "score_pair tsr cm work ?r1 ?r2 (u1 (uuid_calls st1)) = Some d1" and
      d2: "score_pair tsr cm work ?r1 ?r2 (u2 (uuid_calls st2)) = Some d2"
      using score_pair_uid_irrelevant [of tsr cm work ?r1 ?r2 "[]"] by (metis option.exhaust)
    have "blank_uid d1 = d0" "blank_uid d2 = d0"
      using score_pair_blank [of tsr cm work ?r1 ?r2 "u1 (uuid_calls st1)"]
        score_pair_blank [of tsr cm work ?r1 ?r2 "u2 (uuid_calls st2)"] d1 d2 Some
      by simp_all
    then show ?thesis
      unfolding process_pair_Some [where ?uuid4.0 = u1 and st = st1, OF d1]
        process_pair_Some [where ?uuid4.0 = u2 and st = st2, OF d2]
      using assms keys
      by (simp add: blank_dict_append_duplicate)
        (simp add: blank_dict_def blank_entry_def)
  qed
qed

lemma blank_fold_process_pair:
  "blank_dict (master_records_dict st1) = blank_dict (master_records_dict st2) \<Longrightarrow>
   blank_dict (master_records_dict (fold (process_pair tsr u1 cm work) ps st1))
   = blank_dict (master_records_dict (fold (process_pair tsr u2 cm work) ps st2))"
proof (induction ps arbitrary: st1 st2)
  case Nil
  then show ?case by simp
next
  case (Cons p ps)
  have "blank_dict (master_records_dict (process_pair tsr u1 cm work p st1))
        = blank_dict (master_records_dict (process_pair tsr u2 cm work p st2))"
    using Cons.prems by (rule blank_process_pair)
  from Cons.IH [OF this] show ?case by simp
qed

lemma blank_compare_blocks:
  "blank_dict (master_records_dict (compare_blocks tsr u1 cm work blocks))
   = blank_dict (master_records_dict (compare_blocks tsr u2 cm work blocks))"
  unfolding compare_blocks_pairs
  by (rule blank_fold_process_pair) simp

lemma blank_finalize: "blank_master_uids (finalize m) = finalize (blank_entry m)"
  by (simp add: finalize_def blank_master_uids_def blank_entry_def Let_def blank_uid_def
      comp_def list_ex_iff)

lemma map_insort_key:
  "(\<And>x. k (f x) = k x) \<Longrightarrow> map f (insort_key k x xs) = insort_key k (f x) (map f xs)"
  by (induction xs) simp_all

lemma map_sort_key:
  "(\<And>x. k (f x) = k x) \<Longrightarrow> map f (sort_key k xs) = sort_key k (map f xs)"
  by (induction xs) (simp_all add: map_insort_key)

lemma blank_sort_values_desc:
  "map blank_master_uids (sort_values_desc ms) = sort_values_desc (map blank_master_uids ms)"
  unfolding sort_values_desc_def
  by (rule map_sort_key) (simp add: blank_master_uids_def)

lemma blank_masters_list:
  "map blank_master_uids (map (finalize \<circ> snd) dict) = map (finalize \<circ> snd) (blank_dict dict)"
  by (simp add: blank_dict_def blank_finalize case_prod_unfold)

subsection \<open>Normalized columns\<close>

lemma rows_normalize_field_mapped:
  assumes "i < length (rows w)" and "getattr cm lf = Some c" and "c \<noteq> []" and "c \<in> set (columns w)"
  shows "rows (normalize_field cm lf w) ! i =
           (rows w ! i)(lf @ ''_norm'' \<mapsto> PStr (normalize_text (cell_at (rows w ! i) c)))"
  using assms by (simp add: normalize_field_def truthy_def rows_set_column_nth)

lemma rows_normalize_field_unmapped:
  assumes "i < length (rows w)" and "\<not> truthy (getattr cm lf)"
  shows "rows (normalize_field cm lf w) ! i = (rows w ! i)(lf @ ''_norm'' \<mapsto> PStr [])"
  using assms by (simp add: normalize_field_def rows_set_column_nth)

lemma cell_at_upd: "cell_at (r(l \<mapsto> v)) c = (if c = l then v else cell_at r c)"
  by (simp add: cell_at_def)

lemma cell_at_restrict: "c \<in> A \<Longrightarrow> cell_at (r |` A) c = cell_at r c"
  by (simp add: cell_at_def)

lemma customer_name_norm_mapped:
  assumes i: "i < length (rows df)"
    and c: "customer_name cm = Some c" "c \<noteq> []" "c \<in> set (columns df)" "c \<noteq> ''ExcelRow''"
  shows "cell_at (rows (work_of df cm) ! i) ''customer_name_norm''
           = PStr (normalize_text (cell_at (rows df ! i) c))"
proof -
  define cols where "cols = filter (\<lambda>c. c \<in> set (columns df)) (mapped_cols_from_user_file cm)"
  define w0 where "w0 = set_column ''ExcelRow'' (\<lambda>i row. PInt (int i)) (select_columns cols df)"
  define w1 where "w1 = normalize_field cm ''customer_name'' w0"
  define w2 where "w2 = normalize_field cm ''address'' w1"
  define w3 where "w3 = normalize_field cm ''city'' w2"
  define w4 where "w4 = normalize_field cm ''country'' w3"
  have w: "work_of df cm = w4"
    by (simp add: work_of_def make_work_def logical_fields_for_norm_def
        cols_def w0_def w1_def w2_def w3_def w4_def)
  have c_cols: "c \<in> set cols"
    using c by (simp add: cols_def mapped_cols_from_user_file_def List.map_filter_simps)
  have len0: "i < length (rows w0)"
    using i by (simp add: w0_def select_columns_def)
  have c_w0: "c \<in> set (columns w0)"
    using c_cols by (simp add: w0_def set_column_def select_columns_def)
  have r0: "rows w0 ! i = ((rows df ! i) |` set cols)(''ExcelRow'' \<mapsto> PInt (int i))"
    using i by (simp add: w0_def rows_set_column_nth select_columns_def)
  have cell0: "cell_at (rows w0 ! i) c = cell_at (rows df ! i) c"
    using c(4) c_cols by (simp add: r0 cell_at_upd cell_at_restrict)
  have r1: "rows w1 ! i = (rows w0 ! i)(''customer_name_norm'' \<mapsto> PStr (normalize_text (cell_at (rows df ! i) c)))"
    using rows_normalize_field_mapped [OF len0 _ c(2) c_w0, of cm "''customer_name''"] c(1)
    by (simp add: w1_def getattr_def cell0)
  have len1: "i < length (rows w1)" using len0 by (simp add: w1_def)
  obtain s2 where r2: "rows w2 ! i = (rows w1 ! i)(''address_norm'' \<mapsto> PStr s2)"
    using rows_normalize_field_nth [OF len1, of cm "''address''"] by (auto simp: w2_def)
  have len2: "i < length (rows w2)" using len1 by (simp add: w2_def)
  obtain s3 where r3: "rows w3 ! i = (rows w2 ! i)(''city_norm'' \<mapsto> PStr s3)"
    using rows_normalize_field_nth [OF len2, of cm "''city''"] by (auto simp: w3_def)
  have len3: "i < length (rows w3)" using len2 by (simp add: w3_def)
  obtain s4 where r4: "rows w4 ! i = (rows w3 ! i)(''country_norm'' \<mapsto> PStr s4)"
    using rows_normalize_field_nth [OF len3, of cm "''country''"] by (auto simp: w4_def)
  show ?thesis
    unfolding w r4 r3 r2 r1 by (simp add: cell_at_upd)
qed

lemma customer_name_norm_unmapped:
  assumes i: "i < length (rows df)" and c: "\<not> truthy (customer_name cm)"
  shows "cell_at (rows (work_of df cm) ! i) ''customer_name_norm'' = PStr []"
proof -
  define cols where "cols = filter (\<lambda>c. c \<in> set (columns df)) (mapped_cols_from_user_file cm)"
  define w0 where "w0 = set_column ''ExcelRow'' (\<lambda>i row. PInt (int i)) (select_columns cols df)"
  define w1 where "w1 = normalize_field cm ''customer_name'' w0"
  define w2 where "w2 = normalize_field cm ''address'' w1"
  define w3 where "w3 = normalize_field cm ''city'' w2"
  define w4 where "w4 = normalize_field cm ''country'' w3"
  have w: "work_of df cm = w4"
    by (simp add: work_of_def make_work_def logical_fields_for_norm_def
        cols_def w0_def w1_def w2_def w3_def w4_def)
  have len0: "i < length (rows w0)"
    using i by (simp add: w0_def select_columns_def)
  have r1: "rows w1 ! i = (rows w0 ! i)(''customer_name_norm'' \<mapsto> PStr [])"
    using rows_normalize_field_unmapped [OF len0, of cm "''customer_name''"] c
    by (simp add: w1_def getattr_def)
  have len1: "i < length (rows w1)" using len0 by (simp add: w1_def)
  obtain s2 where r2: "rows w2 ! i = (rows w1 ! i)(''address_norm'' \<mapsto> PStr s2)"
    using rows_normalize_field_nth [OF len1, of cm "''address''"] by (auto simp: w2_def)
  have len2: "i < length (rows w2)" using len1 by (simp add: w2_def)
  obtain s3 where r3: "rows w3 ! i = (rows w2 ! i)(''city_norm'' \<mapsto> PStr s3)"
    using rows_normalize_field_nth [OF len2, of cm "''city''"] by (auto simp: w3_def)
  have len3: "i < length (rows w3)" using len2 by (simp add: w3_def)
  obtain s4 where r4: "rows w4 ! i = (rows w3 ! i)(''country_norm'' \<mapsto> PStr s4)"
    using rows_normalize_field_nth [OF len3, of cm "''country''"] by (auto simp: w4_def)
  show ?thesis
    unfolding w r4 r3 r2 r1 by (simp add: cell_at_upd)
qed

lemma city_norm_mapped:
  assumes i: "i < length (rows df)"
    and c: "city cm = Some c" "c \<noteq> []" "c \<in> set (columns df)"
      "c \<notin> {''ExcelRow'', ''customer_name_norm'', ''address_norm''}"
  shows "cell_at (rows (work_of df cm) ! i) ''city_norm''
           = PStr (normalize_text (cell_at (rows df ! i) c))"
proof -
  define cols where "cols = filter (\<lambda>c. c \<in> set (columns df)) (mapped_cols_from_user_file cm)"
  define w0 where "w0 = set_column ''ExcelRow'' (\<lambda>i row. PInt (int i)) (select_columns cols df)"
  define w1 where "w1 = normalize_field cm ''customer_name'' w0"
  define w2 where "w2 = normalize_field cm ''address'' w1"
  define w3 where "w3 = normalize_field cm ''city'' w2"
  define w4 where "w4 = normalize_field cm ''country'' w3"
  have w: "work_of df cm = w4"
    by (simp add: work_of_def make_work_def logical_fields_for_norm_def
        cols_def w0_def w1_def w2_def w3_def w4_def)
  have c_cols: "c \<in> set cols"
    using c by (cases "customer_name cm"; cases "address cm")
      (simp_all add: cols_def mapped_cols_from_user_file_def List.map_filter_simps)
  have len0: "i < length (rows w0)"
    using i by (simp add: w0_def select_columns_def)
  have c_w0: "c \<in> set (columns w0)"
    using c_cols by (simp add: w0_def set_column_def select_columns_def)
  have r0: "rows w0 ! i = ((rows df ! i) |` set cols)(''ExcelRow'' \<mapsto> PInt (int i))"
    using i by (simp add: w0_def rows_set_column_nth select_columns_def)
  obtain s1 where r1: "rows w1 ! i = (rows w0 ! i)(''customer_name_norm'' \<mapsto> PStr s1)"
    using rows_normalize_field_nth [OF len0, of cm "''customer_name''"] by (auto simp: w1_def)
  have len1: "i < length (rows w1)" using len0 by (simp add: w1_def)
  obtain s2 where r2: "rows w2 ! i = (rows w1 ! i)(''address_norm'' \<mapsto> PStr s2)"
    using rows_normalize_field_nth [OF len1, of cm "''address''"] by (auto simp: w2_def)
  have len2: "i < length (rows w2)" using len1 by (simp add: w2_def)
  have c_w2: "c \<in> set (columns w2)"
    using c_w0 by (simp add: w2_def w1_def columns_normalize_field_mono)
  have cell2: "cell_at (rows w2 ! i) c = cell_at (rows df ! i) c"
    using c(4) c_cols by (simp add: r2 r1 r0 cell_at_upd cell_at_restrict)
  have r3: "rows w3 ! i = (rows w2 ! i)(''city_norm'' \<mapsto> PStr (normalize_text (cell_at (rows df ! i) c)))"
    using rows_normalize_field_mapped [OF len2 _ c(2) c_w2, of cm "''city''"] c(1)
    by (simp add: w3_def getattr_def cell2)
  have len3: "i < length (rows w3)" using len2 by (simp add: w3_def)
  obtain s4 where r4: "rows w4 ! i = (rows w3 ! i)(''country_norm'' \<mapsto> PStr s4)"
    using rows_normalize_field_nth [OF len3, of cm "''country''"] by (auto simp: w4_def)
  show ?thesis
    unfolding w r4 r3 by (simp add: cell_at_upd)
qed

subsection \<open>The pairs that are accepted are the pairs that are reported\<close>

lemma key_of_row_compared:
  "(i1, i2) \<in> set (compared_pairs (build_blocks cm (work_of df cm))) \<longleftrightarrow>
     i1 < i2 \<and> i2 < length (rows df) \<and> key_of_row df cm i1 = key_of_row df cm i2"
  by (simp add: compared_pairs_iff key_of_row_def)

lemma accepted_pair_is_reported:
  assumes res: "build_duplicate_df tsr uuid4 df cm = Inr (groups, stats)"
    and pair: "i1 < i2" "i2 < length (rows df)" "key_of_row df cm i1 = key_of_row df cm i2"
    and acc: "score_pair tsr cm (work_of df cm) (rows (work_of df cm) ! i1)
                (rows (work_of df cm) ! i2) u \<noteq> None"
  shows "\<exists>g \<in> set groups. \<exists>d \<in> set (Duplicates g). MasterRow g = int i1 + 2 \<and> Row d = int i2 + 2"
proof -
  let ?work = "work_of df cm"
  let ?dict = "master_records_dict (compare_blocks tsr uuid4 cm ?work (build_blocks cm ?work))"
  have p: "(i1, i2) \<in> set (compared_pairs (build_blocks cm ?work))"
    using pair by (simp add: key_of_row_compared)
  have "reported ?dict (excel_row (rows ?work ! fst (i1, i2)) + 2) (excel_row (rows ?work ! snd (i1, i2)) + 2)"
    unfolding compare_blocks_pairs
    by (rule reported_fold_process_pair [OF p]) (use acc in simp)
  then have "reported ?dict (int i1 + 2) (int i2 + 2)"
    using pair by (simp add: excel_row_work_of)
  then obtain m d where m: "(int i1 + 2, m) \<in> set ?dict" and d: "d \<in> set (m_Duplicates m)" "Row d = int i2 + 2"
    by (auto simp: reported_def)
  have "dict_inv (\<lambda>k d. True) ?dict"
    by (rule dict_inv_compare_blocks) simp
  with m have row: "m_MasterRow m = int i1 + 2"
    by (auto simp: dict_inv_def)
  have "finalize m \<in> set groups"
    using m by (force simp: build_duplicate_df_Inr(1) [OF res])
  moreover have "MasterRow (finalize m) = int i1 + 2" "d \<in> set (Duplicates (finalize m))"
    using row d by (simp_all add: finalize_def Let_def)
  ultimately show ?thesis
    using d(2) by blast
qed

lemma reported_pair_was_accepted:
  assumes res: "build_duplicate_df tsr uuid4 df cm = Inr (groups, stats)"
    and g: "g \<in> set groups" and d: "d \<in> set (Duplicates g)"
    and rows: "MasterRow g = int i1 + 2" "Row d = int i2 + 2"
  shows "\<exists>u. score_pair tsr cm (work_of df cm) (rows (work_of df cm) ! i1)
                (rows (work_of df cm) ! i2) u = Some d"
proof -
  let ?work = "work_of df cm"
  let ?Q = "\<lambda>k d. \<exists>j1 j2 u. k = int j1 + 2 \<and> Row d = int j2 + 2
                \<and> score_pair tsr cm ?work (rows ?work ! j1) (rows ?work ! j2) u = Some d"
  have "Duplicates g \<noteq> [] \<and> (\<forall>d \<in> set (Duplicates g). ?Q (MasterRow g) d)"
  proof (rule group_of_result [OF res g, where Q = ?Q])
    fix j1 j2 u d
    assume p: "(j1, j2) \<in> set (compared_pairs (build_blocks cm ?work))"
      and s: "score_pair tsr cm ?work (rows ?work ! j1) (rows ?work ! j2) u = Some d"
    from p have lt: "j1 < j2" "j2 < length (rows df)"
      by (simp_all add: key_of_row_compared)
    then have "j1 < length (rows df)" by simp
    with lt score_pair_Some(1) [OF s] s
    show "?Q (excel_row (rows ?work ! j1) + 2) d"
      by (auto simp: excel_row_work_of)
  qed
  with d obtain j1 j2 u where "MasterRow g = int j1 + 2" "Row d = int j2 + 2"
    "score_pair tsr cm ?work (rows ?work ! j1) (rows ?work ! j2) u = Some d"
    by blast
  with rows show ?thesis by auto
qed

section \<open>Worked runs of the engine\<close>

text \<open>The engine evaluated on the fixed inputs; the claims below use these runs at
  concrete values.\<close>

lemma run_three_acme:
  "build_duplicate_df three_acme_scores uuid_a three_acme map_name_only
     = Inr ([group_3, group_2], stats_one_block_of_three)"
  by code_simp

lemma run_always_90:
  "build_duplicate_df (always 90) uuid_a two_acme map_name_only
     = Inr ([group_scored 90 False], stats_one_block_of_two)"
  by code_simp

lemma run_always_89:
  "build_duplicate_df (always 89) uuid_a two_acme map_name_only
     = Inr ([group_scored 89 True], stats_one_block_of_two)"
  by code_simp

lemma run_71_70:
  "build_duplicate_df scores_71_70 uuid_a two_acme map_name_address
     = Inr ([group_71_70], stats_one_block_of_two)"
  by code_simp

lemma run_70_68:
  "build_duplicate_df scores_70_68 uuid_a two_acme map_name_address
     = Inr ([], stats_one_block_of_two)"
  by code_simp

lemma run_acme_akme:
  "build_duplicate_df (always 100) uuid_a acme_akme map_name_only
     = Inr ([group_acme_ltd], stats_acme_akme)"
  by code_simp

section \<open>The properties of the specification, C1 to C10\<close>

subsection \<open>C1: determinism\<close>

text \<open>
  C1 says that two invocations on identical inputs produce identical output in every
  field of every group and duplicate record. Each accepted pair draws a fresh identifier
  with \<^verbatim>\<open>uuid.uuid4()\<close> (line 185), and so does each new group (line 196): the fields
  \<^verbatim>\<open>uid\<close> and \<^verbatim>\<open>master_uid\<close> differ from one invocation to the next. What holds, for every
  matcher, table and mapping: two invocations agree on the error, on the block
  statistics, on the order of the groups and on every field of every group and duplicate
  record other than the two generated identifiers.
\<close>

theorem identifiers_are_the_only_difference:
  "blank_uids (build_duplicate_df tsr u1 df cm) = blank_uids (build_duplicate_df tsr u2 df cm)"
proof -
  have "map blank_master_uids (sort_values_desc (map (finalize \<circ> snd)
            (master_records_dict (compare_blocks tsr u1 cm work blocks))))
        = map blank_master_uids (sort_values_desc (map (finalize \<circ> snd)
            (master_records_dict (compare_blocks tsr u2 cm work blocks))))" for work blocks
    by (simp only: blank_sort_values_desc blank_masters_list blank_compare_blocks [of tsr u1 cm work blocks u2])
  then show ?thesis
    by (simp add: build_duplicate_df_def blank_uids_def Let_def split: option.splits)
qed

text \<open>C1, as stated, fails: the same table, mapping and matcher with two sources of
  identifiers give two different results.\<close>

theorem identifiers_differ_between_runs:
  "build_duplicate_df (always 100) uuid_a two_acme map_name_only
     \<noteq> build_duplicate_df (always 100) uuid_b two_acme map_name_only"
  by code_simp

subsection \<open>C2: the normalizer on a missing value\<close>

text \<open>
  C2. The normalizer is total, and on text it is the composition the claim describes:
  the result holds lower-case letters, digits and spaces only
  (\<open>normalize_text_chars\<close>), no whitespace at either end
  (\<open>normalize_text_no_outer_space\<close>) and no two adjacent spaces
  (\<open>normalize_text_single_spaced\<close>), and the empty text gives the empty text
  (\<open>normalize_empty\<close>). The claim also says that
  a missing value (\<^verbatim>\<open>None\<close>) normalizes to the empty string. The code converts its
  argument with \<^verbatim>\<open>str\<close> first, so \<^verbatim>\<open>None\<close> becomes the text \<^verbatim>\<open>None\<close>, and the result is
  the four letters \<^verbatim>\<open>none\<close>.
\<close>

theorem normalize_None: "normalize_text PNone = ''none''"
  by (simp add: normalize_text_def lower_def lower_char_def strip_def sub_non_alnum_def
      is_space_def is_lower_alnum_def)

text \<open>The consequence in the engine: a record whose name is missing is not put in the
  sentinel block \<^verbatim>\<open>xxxx\<close> but in a block of its own kind, \<^verbatim>\<open>none\<close>, together with
  every record whose name starts with these four letters.\<close>

lemma missing_name_is_blocked_as_none:
  "build_blocks map_name_only (work_of missing_name map_name_only)
     = [(''none_y'', [0, 2]), (''xxxx_y'', [1])]"
  by code_simp

subsection \<open>C3: the acceptance threshold\<close>

text \<open>
  C3 says that a pair of distinct records of one block is accepted exactly when its
  rounded overall score is at least 70. The loop first rejects a pair whose name score is
  below 70 when a name column is mapped (line 157), whatever the overall score would be.
  What holds (C3 as amended): for two rows \<open>i1 < i2\<close> of one block that this name check
  does not reject, the result holds a duplicate record of row \<open>i2\<close> under the anchor
  \<open>i1\<close> exactly when the rounded overall score of the pair is at least 70; so a pair
  scoring 70 is accepted and a pair scoring 69 is rejected.
\<close>

theorem accepted_iff_overall_at_least_70:
  assumes res: "build_duplicate_df tsr uuid4 df cm = Inr (groups, stats)"
    and pair: "i1 < i2" "i2 < length (rows df)" "key_of_row df cm i1 = key_of_row df cm i2"
    and name_ok: "\<not> (truthy (customer_name cm) \<and> pair_name_score tsr df cm i1 i2 < 70)"
  shows "(\<exists>g \<in> set groups. \<exists>d \<in> set (Duplicates g). MasterRow g = int i1 + 2 \<and> Row d = int i2 + 2)
         \<longleftrightarrow> 70 \<le> pair_overall tsr df cm i1 i2"
proof
  assume "\<exists>g \<in> set groups. \<exists>d \<in> set (Duplicates g). MasterRow g = int i1 + 2 \<and> Row d = int i2 + 2"
  then obtain g d where "g \<in> set groups" "d \<in> set (Duplicates g)"
    "MasterRow g = int i1 + 2" "Row d = int i2 + 2"
    by blast
  from reported_pair_was_accepted [OF res this] obtain u where
    "score_pair tsr cm (work_of df cm) (rows (work_of df cm) ! i1) (rows (work_of df cm) ! i2) u = Some d"
    by blast
  then have "\<exists>d. score_pair tsr cm (work_of df cm) (rows (work_of df cm) ! i1)
                (rows (work_of df cm) ! i2) u = Some d"
    by blast
  then show "70 \<le> pair_overall tsr df cm i1 i2"
    unfolding score_pair_accepts_iff
    by (simp add: pair_overall_def pair_name_score_def pair_addr_score_def)
next
  assume "70 \<le> pair_overall tsr df cm i1 i2"
  with name_ok have "\<exists>d. score_pair tsr cm (work_of df cm) (rows (work_of df cm) ! i1)
                (rows (work_of df cm) ! i2) [] = Some d"
    unfolding score_pair_accepts_iff
    by (simp add: pair_overall_def pair_name_score_def pair_addr_score_def)
  then have "score_pair tsr cm (work_of df cm) (rows (work_of df cm) ! i1)
                (rows (work_of df cm) ! i2) [] \<noteq> None"
    by auto
  from accepted_pair_is_reported [OF res pair this]
  show "\<exists>g \<in> set groups. \<exists>d \<in> set (Duplicates g). MasterRow g = int i1 + 2 \<and> Row d = int i2 + 2" .
qed

text \<open>C3, as stated, fails: with a name score of 40 and an address score of 100 the
  rounded overall score is 70, the two rows share a block, and no duplicate record is
  produced.\<close>

theorem name_check_rejects_overall_70:
  "(0::nat) < 1 \<and> 1 < length (rows two_acme)
   \<and> key_of_row two_acme map_name_address 0 = key_of_row two_acme map_name_address 1
   \<and> pair_overall scores_40_100 two_acme map_name_address 0 1 = 70
   \<and> build_duplicate_df scores_40_100 uuid_a two_acme map_name_address
       = Inr ([], stats_one_block_of_two)"
  by code_simp

text \<open>Witness for C3 as amended: name 71 and address 70 give 70.5, rounded to the even
  70, and the pair is accepted; name 70 and address 68 give 69, and it is rejected.\<close>

theorem accepted_iff_overall_at_least_70_witness:
  "build_duplicate_df scores_71_70 uuid_a two_acme map_name_address
     = Inr ([group_71_70], stats_one_block_of_two)
   \<and> build_duplicate_df scores_70_68 uuid_a two_acme map_name_address
       = Inr ([], stats_one_block_of_two)
   \<and> (0::nat) < 1 \<and> 1 < length (rows two_acme)
   \<and> key_of_row two_acme map_name_address 0 = key_of_row two_acme map_name_address 1
   \<and> \<not> (truthy (customer_name map_name_address)
          \<and> pair_name_score scores_71_70 two_acme map_name_address 0 1 < 70)
   \<and> \<not> (truthy (customer_name map_name_address)
          \<and> pair_name_score scores_70_68 two_acme map_name_address 0 1 < 70)
   \<and> pair_overall scores_71_70 two_acme map_name_address 0 1 = 70
   \<and> pair_overall scores_70_68 two_acme map_name_address 0 1 = 69
   \<and> (\<exists>g \<in> set [group_71_70]. \<exists>d \<in> set (Duplicates g).
         MasterRow g = int 0 + 2 \<and> Row d = int 1 + 2)
   \<and> \<not> (\<exists>g \<in> set ([] :: MasterRecord list). \<exists>d \<in> set (Duplicates g).
         MasterRow g = int 0 + 2 \<and> Row d = int 1 + 2)"
proof -
  have pair: "(0::nat) < 1" "1 < length (rows two_acme)"
    "key_of_row two_acme map_name_address 0 = key_of_row two_acme map_name_address 1"
    by code_simp+
  have name_ok_a: "\<not> (truthy (customer_name map_name_address)
          \<and> pair_name_score scores_71_70 two_acme map_name_address 0 1 < 70)"
    by code_simp
  have name_ok_b: "\<not> (truthy (customer_name map_name_address)
          \<and> pair_name_score scores_70_68 two_acme map_name_address 0 1 < 70)"
    by code_simp
  have ov_a: "pair_overall scores_71_70 two_acme map_name_address 0 1 = 70"
    by code_simp
  have ov_b: "pair_overall scores_70_68 two_acme map_name_address 0 1 = 69"
    by code_simp
  have acc: "\<exists>g \<in> set [group_71_70]. \<exists>d \<in> set (Duplicates g).
         MasterRow g = int 0 + 2 \<and> Row d = int 1 + 2"
    using accepted_iff_overall_at_least_70 [OF run_71_70 pair name_ok_a] ov_a by simp
  have rej: "\<not> (\<exists>g \<in> set ([] :: MasterRecord list). \<exists>d \<in> set (Duplicates g).
         MasterRow g = int 0 + 2 \<and> Row d = int 1 + 2)"
    using accepted_iff_overall_at_least_70 [OF run_70_68 pair name_ok_b] ov_b by simp
  show ?thesis
    using run_71_70 run_70_68 pair name_ok_a name_ok_b ov_a ov_b acc rej by blast
qed

subsection \<open>C4: a table without rows\<close>




subsection \<open>C5: no field mapped\<close>

text \<open>
  C5. For every table (and every matcher and source of identifiers), if every logical
  field of the column mapping is absent, the engine fails with its error; an error
  carries no groups and no block statistics.
\<close>

theorem no_field_mapped_is_an_error:
  assumes "customer_name cm = None" and "address cm = None" and "city cm = None"
    and "country cm = None" and "tpi cm = None"
  shows "build_duplicate_df tsr uuid4 df cm = Inl NoValidColumns"
  using assms
  by (simp add: build_duplicate_df_def mapped_cols_from_user_file_def List.map_filter_simps)

text \<open>Witness for C5.\<close>

theorem no_field_mapped_is_an_error_witness:
  "customer_name map_nothing = None \<and> address map_nothing = None \<and> city map_nothing = None
   \<and> country map_nothing = None \<and> tpi map_nothing = None
   \<and> build_duplicate_df (always 100) uuid_a two_acme map_nothing = Inl NoValidColumns"
proof -
  have h: "customer_name map_nothing = None" "address map_nothing = None"
    "city map_nothing = None" "country map_nothing = None" "tpi map_nothing = None"
    by (simp_all add: map_nothing_def)
  from no_field_mapped_is_an_error [OF h] h show ?thesis by blast
qed

subsection \<open>C6: the block key\<close>



subsection \<open>C7: blocking soundness\<close>

text \<open>
  C7. Two rows whose block keys differ are never a pair the loops visit (so they are
  never scored), and the result never holds one of them as the anchor and the other as a
  duplicate record, whatever the matcher says about them.
\<close>

theorem different_blocks_never_compared:
  assumes res: "build_duplicate_df tsr uuid4 df cm = Inr (groups, stats)"
    and keys: "key_of_row df cm i1 \<noteq> key_of_row df cm i2"
  shows "(i1, i2) \<notin> set (compared_pairs (build_blocks cm (work_of df cm)))
         \<and> \<not> (\<exists>g \<in> set groups. \<exists>d \<in> set (Duplicates g).
                 MasterRow g = int i1 + 2 \<and> Row d = int i2 + 2)"
proof -
  have not_compared: "(i1, i2) \<notin> set (compared_pairs (build_blocks cm (work_of df cm)))"
    using compared_pairs_build_blocks [of i1 i2 cm "work_of df cm"] keys
    by (auto simp: key_of_row_def)
  have "False" if g: "g \<in> set groups" and d: "d \<in> set (Duplicates g)"
    and rows: "MasterRow g = int i1 + 2" "Row d = int i2 + 2" for g d
    using result_pairs_were_compared [OF res g d] not_compared rows by simp
  with not_compared show ?thesis by blast
qed

text \<open>Witness for C7: \<^verbatim>\<open>Acme Corp\<close> and \<^verbatim>\<open>Akme Corp\<close> are in different blocks; the
  matcher scores every pair 100, and still the only group is the one of the two rows of
  the block \<^verbatim>\<open>acme\<close>.\<close>

theorem different_blocks_never_compared_witness:
  "build_duplicate_df (always 100) uuid_a acme_akme map_name_only
     = Inr ([group_acme_ltd], stats_acme_akme)
   \<and> key_of_row acme_akme map_name_only 0 \<noteq> key_of_row acme_akme map_name_only 1
   \<and> (0, 1) \<notin> set (compared_pairs (build_blocks map_name_only (work_of acme_akme map_name_only)))
   \<and> \<not> (\<exists>g \<in> set [group_acme_ltd]. \<exists>d \<in> set (Duplicates g).
           MasterRow g = int 0 + 2 \<and> Row d = int 1 + 2)"
proof -
  have keys: "key_of_row acme_akme map_name_only 0 \<noteq> key_of_row acme_akme map_name_only 1"
    by code_simp
  from different_blocks_never_compared [OF run_acme_akme keys] run_acme_akme keys
  show ?thesis by blast
qed

subsection \<open>C8: the finalized groups\<close>

text \<open>
  C8. In every result, each group has at least one duplicate record, its
  \<^verbatim>\<open>DuplicateCount\<close> is the length of its duplicate list, its \<^verbatim>\<open>AvgSimilarity\<close> is the
  rounded mean of the overall scores of its duplicates, its \<^verbatim>\<open>IsLowConfidenceGroup\<close> is
  true exactly when one of its duplicates is of low confidence; and the groups are in
  descending order of \<^verbatim>\<open>AvgSimilarity\<close>.
\<close>

theorem groups_are_finalized_and_sorted:
  assumes "build_duplicate_df tsr uuid4 df cm = Inr (groups, stats)"
  shows "(\<forall>g \<in> set groups.
            Duplicates g \<noteq> []
            \<and> DuplicateCount g = length (Duplicates g)
            \<and> AvgSimilarity g =
                py_round (of_int (sum_list (map Overall_score (Duplicates g)))
                            / of_nat (length (Duplicates g)))
            \<and> (IsLowConfidenceGroup g \<longleftrightarrow> (\<exists>d \<in> set (Duplicates g). IsLowConfidence d)))
         \<and> sorted_wrt (\<lambda>a b. AvgSimilarity b \<le> AvgSimilarity a) groups"
proof (intro conjI ballI)
  fix g
  assume g: "g \<in> set groups"
  have nonempty: "Duplicates g \<noteq> [] \<and> (\<forall>d \<in> set (Duplicates g). True)"
    by (rule group_of_result [OF assms g, where Q = "\<lambda>k d. True"]) simp
  from build_duplicate_df_Inr(1) [OF assms] g obtain m where gm: "g = finalize m"
    by auto
  show "Duplicates g \<noteq> []" using nonempty by simp
  show "DuplicateCount g = length (Duplicates g)"
    unfolding gm by (rule finalize_fields(1))
  show "AvgSimilarity g =
          py_round (of_int (sum_list (map Overall_score (Duplicates g)))
                      / of_nat (length (Duplicates g)))"
    using nonempty finalize_fields(2) [of m] by (simp add: gm)
  show "IsLowConfidenceGroup g \<longleftrightarrow> (\<exists>d \<in> set (Duplicates g). IsLowConfidence d)"
    unfolding gm by (rule finalize_fields(3))
next
  show "sorted_wrt (\<lambda>a b. AvgSimilarity b \<le> AvgSimilarity a) groups"
    unfolding build_duplicate_df_Inr(1) [OF assms] by (rule sort_values_desc_sorted)
qed

text \<open>Witness for C8: the group of row 2 was inserted first and has the mean 71.5,
  rounded to the even 72; the group of row 3, with 95, is sorted before it.\<close>

theorem groups_are_finalized_and_sorted_witness:
  "build_duplicate_df three_acme_scores uuid_a three_acme map_name_only
     = Inr ([group_3, group_2], stats_one_block_of_three)
   \<and> Duplicates group_2 \<noteq> []
   \<and> DuplicateCount group_2 = length (Duplicates group_2)
   \<and> AvgSimilarity group_2
       = py_round (of_int (sum_list (map Overall_score (Duplicates group_2)))
                     / of_nat (length (Duplicates group_2)))
   \<and> (IsLowConfidenceGroup group_2 \<longleftrightarrow> (\<exists>d \<in> set (Duplicates group_2). IsLowConfidence d))
   \<and> sorted_wrt (\<lambda>a b. AvgSimilarity b \<le> AvgSimilarity a) [group_3, group_2]"
proof -
  have g: "group_2 \<in> set [group_3, group_2]" by simp
  from groups_are_finalized_and_sorted [OF run_three_acme] g run_three_acme
  show ?thesis by blast
qed

subsection \<open>C9: the confidence threshold\<close>

text \<open>
  C9. Every duplicate record of every group of a result is of low confidence exactly
  when its overall score is below 90: at 90 it is not, at 89 it is.
\<close>

theorem low_confidence_threshold:
  assumes "build_duplicate_df tsr uuid4 df cm = Inr (groups, stats)"
    and "g \<in> set groups" and "d \<in> set (Duplicates g)"
  shows "IsLowConfidence d \<longleftrightarrow> Overall_score d < 90"
proof -
  have "Duplicates g \<noteq> [] \<and> (\<forall>d \<in> set (Duplicates g). IsLowConfidence d \<longleftrightarrow> Overall_score d < 90)"
    by (rule group_of_result [OF assms(1,2), where Q = "\<lambda>k d. IsLowConfidence d \<longleftrightarrow> Overall_score d < 90"])
      (rule score_pair_Some(4))
  with assms(3) show ?thesis by blast
qed

text \<open>Witness for C9, at the scores 90 and 89.\<close>

theorem low_confidence_threshold_witness:
  "build_duplicate_df (always 90) uuid_a two_acme map_name_only
     = Inr ([group_scored 90 False], stats_one_block_of_two)
   \<and> build_duplicate_df (always 89) uuid_a two_acme map_name_only
       = Inr ([group_scored 89 True], stats_one_block_of_two)
   \<and> Overall_score (dup_scored 90 False) = 90
   \<and> (IsLowConfidence (dup_scored 90 False) \<longleftrightarrow> Overall_score (dup_scored 90 False) < 90)
   \<and> Overall_score (dup_scored 89 True) = 89
   \<and> (IsLowConfidence (dup_scored 89 True) \<longleftrightarrow> Overall_score (dup_scored 89 True) < 90)"
proof -
  have g90: "group_scored 90 False \<in> set [group_scored 90 False]"
    and g89: "group_scored 89 True \<in> set [group_scored 89 True]"
    by simp_all
  have d90: "dup_scored 90 False \<in> set (Duplicates (group_scored 90 False))"
    and d89: "dup_scored 89 True \<in> set (Duplicates (group_scored 89 True))"
    by (simp_all add: group_scored_def)
  have s: "Overall_score (dup_scored 90 False) = 90" "Overall_score (dup_scored 89 True) = 89"
    by (simp_all add: dup_scored_def)
  from low_confidence_threshold [OF run_always_90 g90 d90]
    low_confidence_threshold [OF run_always_89 g89 d89] run_always_90 run_always_89 s
  show ?thesis by blast
qed

subsection \<open>C10: the anchor comes first\<close>



end
